theory Spec2Isabelle
  imports Main "HOL-Library.Multiset"
begin

section \<open>Data model (src/types/note.ts)\<close>

text \<open>
  A point in time is the number of milliseconds since the epoch, which is what a
  JavaScript \<open>Date\<close> holds; \<open>new Date(s)\<close> of a timestamp column is the instant the
  column denotes.
\<close>

type_synonym date = int

text \<open>
  \<open>interface Note\<close>. The optional \<open>folderId\<close> is \<open>None\<close> when the property is
  missing or null.
\<close>

record Note =
  note_id :: string
  title :: string
  content :: string
  tags :: "string list"
  isFavorite :: bool
  createdAt :: date
  updatedAt :: date
  folderId :: "string option"

text \<open>\<open>interface Folder\<close>.\<close>

record Folder =
  folder_id :: string
  folder_name :: string
  folder_color :: "string option"
  folder_createdAt :: date

text \<open>
  \<open>Partial<Note>\<close> and \<open>Partial<Folder>\<close>: every property may be missing
  (\<open>None\<close>); a property that is there carries a value of the property's type.
\<close>

record NoteUpdates =
  u_id :: "string option"
  u_title :: "string option"
  u_content :: "string option"
  u_tags :: "string list option"
  u_isFavorite :: "bool option"
  u_createdAt :: "date option"
  u_updatedAt :: "date option"
  u_folderId :: "string option option"

record FolderUpdates =
  fu_id :: "string option"
  fu_name :: "string option"
  fu_color :: "string option option"
  fu_createdAt :: "date option"

text \<open>\<open>Omit<Note, 'id' | 'createdAt' | 'updatedAt'>\<close> and \<open>Omit<Folder, 'id' | 'createdAt'>\<close>.\<close>

record NoteData =
  d_title :: string
  d_content :: string
  d_tags :: "string list"
  d_isFavorite :: bool
  d_folderId :: "string option"

record FolderData =
  fd_name :: string
  fd_color :: "string option"

section \<open>The remote store client, as seen by the store\<close>

text \<open>
  Rows of the tables \<open>notes\<close> and \<open>folders\<close> (the migration): \<open>content\<close>,
  \<open>tags\<close>, \<open>is_favorite\<close> and \<open>folder_id\<close> are nullable columns. The row that an
  insert returns carries the content that was inserted, a string; the type of the
  column is the parameter \<open>'c\<close> (\<open>string\<close> there, \<open>string option\<close> in a select).
\<close>

record 'c note_row =
  row_id :: string
  row_title :: string
  row_content :: 'c
  row_tags :: "string list option"
  row_is_favorite :: "bool option"
  row_folder_id :: "string option"
  row_created_at :: date
  row_updated_at :: date

record folder_row =
  frow_id :: string
  frow_name :: string
  frow_color :: "string option"
  frow_created_at :: date

text \<open>
  What an awaited request resolves to, \<open>{ data, error }\<close>: \<open>resp_error\<close> is
  \<open>None\<close> when the request succeeded, and \<open>resp_data\<close> is read only then.
  \<open>supabase.auth.getUser()\<close> resolves to the user's id, if there is a session, and
  an error.
\<close>

record 'a response =
  resp_data :: 'a
  resp_error :: "string option"

record auth_response =
  auth_user :: "string option"
  auth_error :: "string option"

text \<open>What a store operation throws.\<close>

datatype error = NotAuthenticated | RemoteError string

section \<open>The local state store (src/store/notesStore.ts)\<close>

text \<open>\<open>interface NotesState\<close>: the fields \<open>notes\<close>, \<open>folders\<close>, \<open>tags\<close>, \<open>isLoading\<close>, \<open>lastSync\<close>.\<close>

record NotesState =
  st_notes :: "Note list"
  st_folders :: "Folder list"
  st_tags :: "string list"
  st_isLoading :: bool
  st_lastSync :: "date option"

definition initialState :: NotesState where
  "initialState = \<lparr>st_notes = [], st_folders = [], st_tags = [], st_isLoading = False, st_lastSync = None\<rparr>"

text \<open>
  \<open>Array.from(new Set(xs))\<close>: a \<open>Set\<close> keeps its elements in insertion order and
  ignores an element that it already holds.
\<close>

fun Set_add_all :: "'a list \<Rightarrow> 'a list \<Rightarrow> 'a list" where
  "Set_add_all seen [] = seen"
| "Set_add_all seen (x # xs) = Set_add_all (if x \<in> set seen then seen else seen @ [x]) xs"

definition Array_from_Set :: "'a list \<Rightarrow> 'a list" where
  "Array_from_Set xs = Set_add_all [] xs"

text \<open>
  A store operation takes what its awaited requests resolve to and the state, and
  returns what it throws (\<open>Inl\<close>) or that it returned (\<open>Inr\<close>), with the state it
  leaves.
\<close>

type_synonym outcome = "(error + unit) \<times> NotesState"

definition addNote :: "NoteData \<Rightarrow> auth_response \<Rightarrow> string note_row response \<Rightarrow> NotesState \<Rightarrow> outcome" where
  "addNote noteData userResp insertResp state =
     (if auth_error userResp \<noteq> None \<or> auth_user userResp = None
      then (Inl NotAuthenticated, state)
      else case resp_error insertResp of
        Some e \<Rightarrow> (Inl (RemoteError e), state)
      | None \<Rightarrow>
          let d = resp_data insertResp;
              newNote = \<lparr>note_id = row_id d,
                         title = row_title d,
                         content = row_content d,
                         tags = (case row_tags d of None \<Rightarrow> [] | Some ts \<Rightarrow> ts),
                         isFavorite = (case row_is_favorite d of None \<Rightarrow> False | Some b \<Rightarrow> b),
                         createdAt = row_created_at d,
                         updatedAt = row_updated_at d,
                         folderId = row_folder_id d\<rparr>
          in (Inr (),
              state\<lparr>st_notes := newNote # st_notes state,
                    st_tags := Array_from_Set (st_tags state @ tags newNote)\<rparr>))"

text \<open>\<open>{ ...note, ...updates, updatedAt: new Date() }\<close>, with \<open>now\<close> what \<open>new Date()\<close> reads.\<close>

definition mergeNote :: "Note \<Rightarrow> NoteUpdates \<Rightarrow> date \<Rightarrow> Note" where
  "mergeNote note updates now =
     \<lparr>note_id = (case u_id updates of None \<Rightarrow> note_id note | Some v \<Rightarrow> v),
      title = (case u_title updates of None \<Rightarrow> title note | Some v \<Rightarrow> v),
      content = (case u_content updates of None \<Rightarrow> content note | Some v \<Rightarrow> v),
      tags = (case u_tags updates of None \<Rightarrow> tags note | Some v \<Rightarrow> v),
      isFavorite = (case u_isFavorite updates of None \<Rightarrow> isFavorite note | Some v \<Rightarrow> v),
      createdAt = (case u_createdAt updates of None \<Rightarrow> createdAt note | Some v \<Rightarrow> v),
      updatedAt = now,
      folderId = (case u_folderId updates of None \<Rightarrow> folderId note | Some v \<Rightarrow> v)\<rparr>"

definition updateNote :: "string \<Rightarrow> NoteUpdates \<Rightarrow> date \<Rightarrow> unit response \<Rightarrow> NotesState \<Rightarrow> outcome" where
  "updateNote ident updates now updateResp state =
     (case resp_error updateResp of
        Some e \<Rightarrow> (Inl (RemoteError e), state)
      | None \<Rightarrow>
          (Inr (),
           state\<lparr>st_notes := map (\<lambda>note. if note_id note = ident then mergeNote note updates now else note)
                              (st_notes state),
                 st_tags := Array_from_Set
                   (st_tags state @ (case u_tags updates of None \<Rightarrow> [] | Some ts \<Rightarrow> ts))\<rparr>))"

definition deleteNote :: "string \<Rightarrow> unit response \<Rightarrow> NotesState \<Rightarrow> outcome" where
  "deleteNote ident deleteResp state =
     (case resp_error deleteResp of
        Some e \<Rightarrow> (Inl (RemoteError e), state)
      | None \<Rightarrow> (Inr (), state\<lparr>st_notes := filter (\<lambda>note. note_id note \<noteq> ident) (st_notes state)\<rparr>))"

definition addFolder :: "FolderData \<Rightarrow> auth_response \<Rightarrow> folder_row response \<Rightarrow> NotesState \<Rightarrow> outcome" where
  "addFolder folderData userResp insertResp state =
     (if auth_error userResp \<noteq> None \<or> auth_user userResp = None
      then (Inl NotAuthenticated, state)
      else case resp_error insertResp of
        Some e \<Rightarrow> (Inl (RemoteError e), state)
      | None \<Rightarrow>
          let d = resp_data insertResp;
              newFolder = \<lparr>folder_id = frow_id d,
                           folder_name = frow_name d,
                           folder_color = frow_color d,
                           folder_createdAt = frow_created_at d\<rparr>
          in (Inr (), state\<lparr>st_folders := st_folders state @ [newFolder]\<rparr>))"

text \<open>\<open>{ ...folder, ...updates }\<close>.\<close>

definition mergeFolder :: "Folder \<Rightarrow> FolderUpdates \<Rightarrow> Folder" where
  "mergeFolder folder updates =
     \<lparr>folder_id = (case fu_id updates of None \<Rightarrow> folder_id folder | Some v \<Rightarrow> v),
      folder_name = (case fu_name updates of None \<Rightarrow> folder_name folder | Some v \<Rightarrow> v),
      folder_color = (case fu_color updates of None \<Rightarrow> folder_color folder | Some v \<Rightarrow> v),
      folder_createdAt = (case fu_createdAt updates of None \<Rightarrow> folder_createdAt folder | Some v \<Rightarrow> v)\<rparr>"

definition updateFolder :: "string \<Rightarrow> FolderUpdates \<Rightarrow> unit response \<Rightarrow> NotesState \<Rightarrow> outcome" where
  "updateFolder ident updates updateResp state =
     (case resp_error updateResp of
        Some e \<Rightarrow> (Inl (RemoteError e), state)
      | None \<Rightarrow>
          (Inr (),
           state\<lparr>st_folders := map (\<lambda>folder. if folder_id folder = ident then mergeFolder folder updates
                                          else folder)
                                (st_folders state)\<rparr>))"

definition deleteFolder :: "string \<Rightarrow> unit response \<Rightarrow> NotesState \<Rightarrow> outcome" where
  "deleteFolder ident deleteResp state =
     (case resp_error deleteResp of
        Some e \<Rightarrow> (Inl (RemoteError e), state)
      | None \<Rightarrow>
          (Inr (), state\<lparr>st_folders := filter (\<lambda>folder. folder_id folder \<noteq> ident) (st_folders state)\<rparr>))"

text \<open>
  \<open>fetchNotes\<close> never throws: a failed select is logged and the collection stays.
  \<open>item.content || ''\<close> turns null into the empty string, \<open>item.tags || []\<close> null
  into the empty array, \<open>item.is_favorite || false\<close> null into false.
\<close>

definition noteOfRow :: "string option note_row \<Rightarrow> Note" where
  "noteOfRow item =
     \<lparr>note_id = row_id item,
      title = row_title item,
      content = (case row_content item of None \<Rightarrow> [] | Some c \<Rightarrow> c),
      tags = (case row_tags item of None \<Rightarrow> [] | Some ts \<Rightarrow> ts),
      isFavorite = (case row_is_favorite item of None \<Rightarrow> False | Some b \<Rightarrow> b),
      createdAt = row_created_at item,
      updatedAt = row_updated_at item,
      folderId = row_folder_id item\<rparr>"

definition fetchNotes :: "string option note_row list response \<Rightarrow> date \<Rightarrow> NotesState \<Rightarrow> NotesState" where
  "fetchNotes selectResp now state =
     (let loading = state\<lparr>st_isLoading := True\<rparr>
      in case resp_error selectResp of
        Some e \<Rightarrow> loading\<lparr>st_isLoading := False\<rparr>
      | None \<Rightarrow>
          let fetched = map noteOfRow (resp_data selectResp);
              allTags = Array_from_Set (concat (map tags fetched))
          in loading\<lparr>st_notes := fetched, st_tags := allTags, st_isLoading := False,
                      st_lastSync := Some now\<rparr>)"

section \<open>Example data\<close>

definition noteShopping :: Note where
  "noteShopping = \<lparr>note_id = ''n1'', title = ''Shopping'', content = ''milk, eggs'',
     tags = [''home''], isFavorite = False, createdAt = 100, updatedAt = 100, folderId = Some ''f1''\<rparr>"

definition noteBudget :: Note where
  "noteBudget = \<lparr>note_id = ''n2'', title = ''Budget'', content = ''rent and bills'',
     tags = [''work'', ''home''], isFavorite = True, createdAt = 200, updatedAt = 200, folderId = None\<rparr>"

definition folderHome :: Folder where
  "folderHome = \<lparr>folder_id = ''f1'', folder_name = ''Home'', folder_color = None, folder_createdAt = 50\<rparr>"

definition exampleState :: NotesState where
  "exampleState = \<lparr>st_notes = [noteBudget, noteShopping], st_folders = [folderHome],
     st_tags = [''work'', ''home''], st_isLoading = False, st_lastSync = Some 300\<rparr>"

definition requestFailed :: "'a \<Rightarrow> 'a response" where
  "requestFailed d = \<lparr>resp_data = d, resp_error = Some ''network''\<rparr>"

definition requestOk :: "'a \<Rightarrow> 'a response" where
  "requestOk d = \<lparr>resp_data = d, resp_error = None\<rparr>"

definition signedIn :: auth_response where
  "signedIn = \<lparr>auth_user = Some ''u1'', auth_error = None\<rparr>"

definition signedOut :: auth_response where
  "signedOut = \<lparr>auth_user = None, auth_error = None\<rparr>"

definition insertedRow :: "string note_row" where
  "insertedRow = \<lparr>row_id = ''n3'', row_title = ''Trip'', row_content = ''pack'',
     row_tags = Some [''travel'', ''home''], row_is_favorite = Some False, row_folder_id = None,
     row_created_at = 400, row_updated_at = 400\<rparr>"

definition insertedFolderRow :: folder_row where
  "insertedFolderRow = \<lparr>frow_id = ''f2'', frow_name = ''Work'', frow_color = Some ''#3b82f6'',
     frow_created_at = 400\<rparr>"

definition noUpdates :: NoteUpdates where
  "noUpdates = \<lparr>u_id = None, u_title = None, u_content = None, u_tags = None, u_isFavorite = None,
     u_createdAt = None, u_updatedAt = None, u_folderId = None\<rparr>"

definition noFolderUpdates :: FolderUpdates where
  "noFolderUpdates = \<lparr>fu_id = None, fu_name = None, fu_color = None, fu_createdAt = None\<rparr>"

definition newNoteData :: NoteData where
  "newNoteData = \<lparr>d_title = ''Trip'', d_content = ''pack'', d_tags = [''travel'', ''home''],
     d_isFavorite = False, d_folderId = None\<rparr>"

definition newFolderData :: FolderData where
  "newFolderData = \<lparr>fd_name = ''Work'', fd_color = Some ''#3b82f6''\<rparr>"

definition fetchedRows :: "string option note_row list" where
  "fetchedRows =
     [\<lparr>row_id = ''n2'', row_title = ''Budget'', row_content = Some ''rent and bills'',
       row_tags = Some [''work''], row_is_favorite = Some True, row_folder_id = None,
       row_created_at = 200, row_updated_at = 200\<rparr>,
      \<lparr>row_id = ''n4'', row_title = ''Draft'', row_content = None,
       row_tags = None, row_is_favorite = None, row_folder_id = None,
       row_created_at = 150, row_updated_at = 150\<rparr>]"

section \<open>Strings\<close>

text \<open>
  A string is the list of its characters, taken from U+0000 to U+00FF.
  \<open>toLowerCase\<close> maps the capital letters of that range (A to Z, and U+00C0 to
  U+00DE but for the multiplication sign U+00D7) to the letter 32 places on.
\<close>

definition toLowerCase_char :: "char \<Rightarrow> char" where
  "toLowerCase_char c =
     (let n = (of_char c :: nat)
      in if (65 \<le> n \<and> n \<le> 90) \<or> (192 \<le> n \<and> n \<le> 222 \<and> n \<noteq> 215)
         then char_of (n + 32) else c)"

definition toLowerCase :: "string \<Rightarrow> string" where
  "toLowerCase s = map toLowerCase_char s"

text \<open>
  \<open>s.includes(q)\<close>, here \<open>includes_str s q\<close>: \<open>q\<close> occurs in \<open>s\<close> at some
  position.
\<close>

fun startsWith :: "'a list \<Rightarrow> 'a list \<Rightarrow> bool" where
  "startsWith s [] = True"
| "startsWith [] (q # qs) = False"
| "startsWith (c # cs) (q # qs) = (c = q \<and> startsWith cs qs)"

fun includes_str :: "'a list \<Rightarrow> 'a list \<Rightarrow> bool" where
  "includes_str [] q = (q = [])"
| "includes_str (c # cs) q = (startsWith (c # cs) q \<or> includes_str cs q)"

text \<open>
  \<open>s.trim()\<close> removes the white space at both ends; of the characters up to U+00FF
  these are tab, line feed, vertical tab, form feed, carriage return, space and the
  no-break space. A string is truthy when it is not empty.
\<close>

definition isWhiteSpace :: "char \<Rightarrow> bool" where
  "isWhiteSpace c = ((of_char c :: nat) \<in> {9, 10, 11, 12, 13, 32, 160})"

definition trim :: "string \<Rightarrow> string" where
  "trim s = rev (dropWhile isWhiteSpace (rev (dropWhile isWhiteSpace s)))"

definition truthy :: "string \<Rightarrow> bool" where
  "truthy s = (s \<noteq> [])"

section \<open>The list view (src/components/NotesList.tsx)\<close>

text \<open>
  \<open>Array.prototype.sort\<close> with a comparison function: the sort is stable, so for a
  consistent comparison function the result is the one of inserting each element,
  from the last to the first, in front of the first element that it does not come
  after.
\<close>

fun insort_cmp :: "('a \<Rightarrow> 'a \<Rightarrow> int) \<Rightarrow> 'a \<Rightarrow> 'a list \<Rightarrow> 'a list" where
  "insort_cmp cmp x [] = [x]"
| "insort_cmp cmp x (y # ys) = (if cmp x y \<le> 0 then x # y # ys else y # insort_cmp cmp x ys)"

definition sort_cmp :: "('a \<Rightarrow> 'a \<Rightarrow> int) \<Rightarrow> 'a list \<Rightarrow> 'a list" where
  "sort_cmp cmp xs = foldr (insort_cmp cmp) xs []"

datatype sortKey = ByDate | ByTitle | ByFavorite

text \<open>
  The comparison function of the view. \<open>localeCompare\<close> depends on the locale of
  the browser and is a parameter.
\<close>

definition compareNotes :: "(string \<Rightarrow> string \<Rightarrow> int) \<Rightarrow> sortKey \<Rightarrow> Note \<Rightarrow> Note \<Rightarrow> int" where
  "compareNotes localeCompare sortBy a b =
     (if sortBy = ByFavorite \<and> isFavorite a \<and> \<not> isFavorite b then - 1
      else if sortBy = ByFavorite \<and> \<not> isFavorite a \<and> isFavorite b then 1
      else if sortBy = ByTitle then localeCompare (title a) (title b)
      else updatedAt b - updatedAt a)"

definition matchesSearch :: "Note \<Rightarrow> string \<Rightarrow> bool" where
  "matchesSearch note searchQuery =
     (includes_str (toLowerCase (title note)) (toLowerCase searchQuery)
      \<or> includes_str (toLowerCase (content note)) (toLowerCase searchQuery))"

text \<open>\<open>!selectedTag || note.tags.includes(selectedTag)\<close>: null and the empty string are falsy.\<close>

definition matchesTag :: "Note \<Rightarrow> string option \<Rightarrow> bool" where
  "matchesTag note selectedTag =
     (case selectedTag of None \<Rightarrow> True | Some t \<Rightarrow> t = [] \<or> t \<in> set (tags note))"

definition filteredNotes ::
  "(string \<Rightarrow> string \<Rightarrow> int) \<Rightarrow> Note list \<Rightarrow> string \<Rightarrow> string option \<Rightarrow> sortKey \<Rightarrow> Note list" where
  "filteredNotes localeCompare noteList searchQuery selectedTag sortBy =
     sort_cmp (compareNotes localeCompare sortBy)
       (filter (\<lambda>note. matchesSearch note searchQuery \<and> matchesTag note selectedTag) noteList)"

text \<open>\<open>searchNotes\<close> of the store.\<close>

definition searchNotes :: "NotesState \<Rightarrow> string \<Rightarrow> Note list" where
  "searchNotes state query =
     filter (\<lambda>note. includes_str (toLowerCase (title note)) (toLowerCase query)
                   \<or> includes_str (toLowerCase (content note)) (toLowerCase query)
                   \<or> list_ex (\<lambda>tag. includes_str (toLowerCase tag) (toLowerCase query)) (tags note))
            (st_notes state)"

definition noteA :: Note where
  "noteA = \<lparr>note_id = ''a'', title = ''A'', content = '''', tags = [], isFavorite = False,
     createdAt = 1, updatedAt = 1, folderId = None\<rparr>"

definition noteB :: Note where
  "noteB = \<lparr>note_id = ''b'', title = ''B'', content = '''', tags = [], isFavorite = True,
     createdAt = 2, updatedAt = 2, folderId = None\<rparr>"

definition noteC :: Note where
  "noteC = \<lparr>note_id = ''c'', title = ''C'', content = '''', tags = [], isFavorite = False,
     createdAt = 3, updatedAt = 3, folderId = None\<rparr>"


text \<open>A collation for the examples, none of which sorts by title: all strings are equal.\<close>

definition constantCollation :: "string \<Rightarrow> string \<Rightarrow> int" where
  "constantCollation a b = 0"

text \<open>
  The search predicate in the words of the specification: the query, in lower case,
  occurs somewhere in the text, in lower case.
\<close>

definition spec_ci_substring :: "string \<Rightarrow> string \<Rightarrow> bool" where
  "spec_ci_substring query text = (\<exists>pre post. toLowerCase text = pre @ toLowerCase query @ post)"

section \<open>The note editor (src/components/NoteEditor.tsx)\<close>

text \<open>
  The state of one mounted editor: the property \<open>noteId\<close> and the state
  variables of the component.
\<close>

record editorState =
  noteId :: "string option"
  ed_title :: string
  ed_content :: string
  ed_tags :: "string list"
  newTag :: string
  ed_isFavorite :: bool
  lastSaved :: "date option"
  saving :: bool
  hasUnsavedChanges :: bool

text \<open>
  What the functions created in one render see: the state variables of that render
  and \<open>currentNote\<close>, the note of the store with the id \<open>noteId\<close>, if any.
\<close>

record render =
  r_title :: string
  r_content :: string
  r_tags :: "string list"
  r_isFavorite :: bool
  r_saving :: bool
  r_currentNote :: "Note option"

definition currentNote :: "editorState \<Rightarrow> NotesState \<Rightarrow> Note option" where
  "currentNote ed state =
     (case noteId ed of
        None \<Rightarrow> None
      | Some i \<Rightarrow> if i = [] then None else find (\<lambda>n. note_id n = i) (st_notes state))"

definition renderOf :: "editorState \<Rightarrow> NotesState \<Rightarrow> render" where
  "renderOf ed state =
     \<lparr>r_title = ed_title ed, r_content = ed_content ed, r_tags = ed_tags ed,
      r_isFavorite = ed_isFavorite ed, r_saving = saving ed, r_currentNote = currentNote ed state\<rparr>"

text \<open>The write that \<open>handleSave\<close> awaits: \<open>updateNote(currentNote.id, noteData)\<close> or \<open>addNote(noteData)\<close>.\<close>

datatype request = UpdateNoteRequest string NoteUpdates | AddNoteRequest NoteData

text \<open>
  One mounted editor. React keeps the state variables; a call of a setter queues an
  update, and the update reaches the functions of the component only with the next
  render. \<open>editor\<close> is the state as the last committed render has it: it is
  what the user sees and what the handlers, the effects and the timeout callback
  created in that render read. \<open>latest\<close> is that state with the updates queued
  since. With them are the store, which renders its subscribers anew as soon as it
  changes, the pending timeout of \<open>autoSaveTimeoutRef\<close> (its delay in milliseconds
  and the render whose functions it calls) and the writes that \<open>handleSave\<close> has
  issued and that have not settled.
\<close>

record system =
  editor :: editorState
  latest :: editorState
  store :: NotesState
  timer :: "(nat \<times> render) option"
  inFlight :: "request list"

definition initialEditor :: "string option \<Rightarrow> editorState" where
  "initialEditor ident =
     \<lparr>noteId = ident, ed_title = [], ed_content = [], ed_tags = [], newTag = [],
      ed_isFavorite = False, lastSaved = None, saving = False, hasUnsavedChanges = False\<rparr>"

definition initialSystem :: "NotesState \<Rightarrow> string option \<Rightarrow> system" where
  "initialSystem state ident =
     \<lparr>editor = initialEditor ident, latest = initialEditor ident, store = state, timer = None,
      inFlight = []\<rparr>"

text \<open>\<open>noteData\<close> of \<open>handleSave\<close>; \<open>title || 'Untitled Note'\<close> replaces the empty title.\<close>

definition savedTitle :: "render \<Rightarrow> string" where
  "savedTitle r = (if truthy (r_title r) then r_title r else ''Untitled Note'')"

definition saveRequest :: "render \<Rightarrow> request" where
  "saveRequest r =
     (case r_currentNote r of
        Some n \<Rightarrow>
          UpdateNoteRequest (note_id n)
            \<lparr>u_id = None, u_title = Some (savedTitle r), u_content = Some (r_content r),
             u_tags = Some (r_tags r), u_isFavorite = Some (r_isFavorite r), u_createdAt = None,
             u_updatedAt = None, u_folderId = None\<rparr>
      | None \<Rightarrow>
          AddNoteRequest
            \<lparr>d_title = savedTitle r, d_content = r_content r, d_tags = r_tags r,
             d_isFavorite = r_isFavorite r, d_folderId = None\<rparr>)"

text \<open>
  \<open>handleSave\<close> up to its \<open>await\<close>, as created in the render \<open>r\<close>: the two
  guards, on the title, the content and the constant \<open>saving\<close> of that render,
  then \<open>setSaving(true)\<close> and the write.
\<close>

definition handleSave :: "render \<Rightarrow> system \<Rightarrow> system" where
  "handleSave r s =
     (if \<not> truthy (trim (r_title r)) \<and> \<not> truthy (trim (r_content r)) then s
      else if r_saving r then s
      else s\<lparr>latest := (latest s)\<lparr>saving := True\<rparr>, inFlight := inFlight s @ [saveRequest r]\<rparr>)"

text \<open>
  \<open>handleSave\<close> after its \<open>await\<close>: the store operation has run with what its
  requests resolved to; when it returned, \<open>setLastSaved\<close> and
  \<open>setHasUnsavedChanges(false)\<close>; in both cases \<open>setSaving(false)\<close>.
\<close>

definition runRequest ::
  "request \<Rightarrow> auth_response \<Rightarrow> string note_row response \<Rightarrow> unit response \<Rightarrow> date \<Rightarrow> NotesState \<Rightarrow> outcome" where
  "runRequest req userResp insertResp updateResp now state =
     (case req of
        UpdateNoteRequest ident updates \<Rightarrow> updateNote ident updates now updateResp state
      | AddNoteRequest noteData \<Rightarrow> addNote noteData userResp insertResp state)"

definition handleSave_settled ::
  "auth_response \<Rightarrow> string note_row response \<Rightarrow> unit response \<Rightarrow> date \<Rightarrow> system \<Rightarrow> system" where
  "handleSave_settled userResp insertResp updateResp now s =
     (case inFlight s of
        [] \<Rightarrow> s
      | req # rest \<Rightarrow>
          let (result, state') = runRequest req userResp insertResp updateResp now (store s);
              ed = (case result of
                      Inr u \<Rightarrow> (latest s)\<lparr>lastSaved := Some now, hasUnsavedChanges := False\<rparr>
                    | Inl e \<Rightarrow> latest s)
          in s\<lparr>latest := ed\<lparr>saving := False\<rparr>, store := state', inFlight := rest\<rparr>)"

text \<open>The effect on \<open>[currentNote]\<close>: load the note's fields, or clear them.\<close>

definition loadEffect :: "system \<Rightarrow> system" where
  "loadEffect s =
     (case currentNote (editor s) (store s) of
        Some n \<Rightarrow>
          s\<lparr>latest := (latest s)\<lparr>ed_title := title n, ed_content := content n, ed_tags := tags n,
                                 ed_isFavorite := isFavorite n, hasUnsavedChanges := False\<rparr>\<rparr>
      | None \<Rightarrow>
          s\<lparr>latest := (latest s)\<lparr>ed_title := [], ed_content := [], ed_tags := [],
                                 ed_isFavorite := False, hasUnsavedChanges := False\<rparr>\<rparr>)"

text \<open>
  The effect that marks the content as changed. Two arrays of strings have the same
  \<open>JSON.stringify\<close> exactly when they are equal.
\<close>

definition markEffect :: "system \<Rightarrow> system" where
  "markEffect s =
     (let ed = editor s
      in case currentNote ed (store s) of
        Some n \<Rightarrow>
          s\<lparr>latest := (latest s)\<lparr>hasUnsavedChanges :=
                 (ed_title ed \<noteq> title n \<or> ed_content ed \<noteq> content n \<or> ed_tags ed \<noteq> tags n
                  \<or> ed_isFavorite ed \<noteq> isFavorite n)\<rparr>\<rparr>
      | None \<Rightarrow>
          s\<lparr>latest := (latest s)\<lparr>hasUnsavedChanges :=
                 (trim (ed_title ed) \<noteq> [] \<or> trim (ed_content ed) \<noteq> [])\<rparr>\<rparr>)"

text \<open>
  The auto-save effect on \<open>[hasUnsavedChanges, saving, title, content]\<close>, run with
  the render that has just been committed. When one of the four differs from the
  previous render, the cleanup clears the pending timeout and the effect sets a new
  one, of 30000 milliseconds, if that render has unsaved changes and no save
  running.
\<close>

definition autoSaveDeps :: "editorState \<Rightarrow> bool \<times> bool \<times> string \<times> string" where
  "autoSaveDeps ed = (hasUnsavedChanges ed, saving ed, ed_title ed, ed_content ed)"

definition autoSaveEffect :: "editorState \<Rightarrow> system \<Rightarrow> system" where
  "autoSaveEffect previous s =
     (if autoSaveDeps previous = autoSaveDeps (editor s) then s
      else s\<lparr>timer := (if hasUnsavedChanges (editor s) \<and> \<not> saving (editor s)
                        then Some (30000, renderOf (editor s) (store s)) else None)\<rparr>)"

text \<open>React renders the component with the queued updates and commits the render.\<close>

definition commitRender :: "system \<Rightarrow> system" where
  "commitRender s = autoSaveEffect (editor s) (s\<lparr>editor := latest s\<rparr>)"

text \<open>The callback of the timeout, set in the render \<open>r\<close>.\<close>

definition autoSaveTimeout :: "render \<Rightarrow> system \<Rightarrow> system" where
  "autoSaveTimeout r s =
     (if truthy (trim (r_title r)) \<or> truthy (trim (r_content r)) then handleSave r s else s)"

text \<open>
  \<open>handleAddTag\<close> and \<open>handleRemoveTag\<close>, as created in the render with the state
  \<open>ed\<close>, queue their updates on \<open>queued\<close>.
\<close>

definition handleAddTag :: "editorState \<Rightarrow> editorState \<Rightarrow> editorState" where
  "handleAddTag ed queued =
     (if truthy (trim (newTag ed)) \<and> trim (newTag ed) \<notin> set (ed_tags ed)
      then queued\<lparr>ed_tags := ed_tags ed @ [trim (newTag ed)], newTag := []\<rparr>
      else queued)"

definition handleRemoveTag :: "string \<Rightarrow> editorState \<Rightarrow> editorState \<Rightarrow> editorState" where
  "handleRemoveTag tagToRemove ed queued =
     queued\<lparr>ed_tags := filter (\<lambda>tag. tag \<noteq> tagToRemove) (ed_tags ed)\<rparr>"

text \<open>
  What can happen to a mounted editor, one event at a time on the single thread of
  the page: the user edits a field, presses Save or selects another note; the
  timeout expires; the awaited write settles, with what its requests resolve to and
  the reading of the clock; another component or a fetch changes the store; the
  effect that loads the current note runs, or the one that marks the changes; React
  renders the component. Every handler, effect and callback is the one of the last
  committed render and queues its updates. The render is an event of its own: React
  renders at once after an update made in a handler of a user's event, and later, in
  a task of its own, after an update made in a timeout callback or after an
  \<open>await\<close>, so that another event can come before it; the runs of the model
  include both. The two effects on the current note have dependencies that React
  compares by identity (the note found in the store, the array of tags), so they
  too are events of their own that may come at any time.
\<close>

datatype event =
    SetTitle string
  | SetContent string
  | SetNewTag string
  | AddTag
  | RemoveTag string
  | ToggleFavorite
  | ClickSave
  | SelectNote "string option"
  | TimerExpires
  | WriteSettles auth_response "string note_row response" "unit response" date
  | StoreChanges NotesState
  | RunLoadEffect
  | RunMarkEffect
  | Render

definition step :: "event \<Rightarrow> system \<Rightarrow> system" where
  "step e s =
     (case e of
        SetTitle t \<Rightarrow> s\<lparr>latest := (latest s)\<lparr>ed_title := t\<rparr>\<rparr>
      | SetContent c \<Rightarrow> s\<lparr>latest := (latest s)\<lparr>ed_content := c\<rparr>\<rparr>
      | SetNewTag t \<Rightarrow> s\<lparr>latest := (latest s)\<lparr>newTag := t\<rparr>\<rparr>
      | AddTag \<Rightarrow> s\<lparr>latest := handleAddTag (editor s) (latest s)\<rparr>
      | RemoveTag t \<Rightarrow> s\<lparr>latest := handleRemoveTag t (editor s) (latest s)\<rparr>
      | ToggleFavorite \<Rightarrow> s\<lparr>latest := (latest s)\<lparr>ed_isFavorite := \<not> ed_isFavorite (editor s)\<rparr>\<rparr>
      | ClickSave \<Rightarrow> handleSave (renderOf (editor s) (store s)) s
      | SelectNote i \<Rightarrow> s\<lparr>latest := (latest s)\<lparr>noteId := i\<rparr>\<rparr>
      | TimerExpires \<Rightarrow>
          (case timer s of
             None \<Rightarrow> s
           | Some (delay, r) \<Rightarrow> autoSaveTimeout r (s\<lparr>timer := None\<rparr>))
      | WriteSettles userResp insertResp updateResp now \<Rightarrow>
          handleSave_settled userResp insertResp updateResp now s
      | StoreChanges state \<Rightarrow> s\<lparr>store := state\<rparr>
      | RunLoadEffect \<Rightarrow> loadEffect s
      | RunMarkEffect \<Rightarrow> markEffect s
      | Render \<Rightarrow> commitRender s)"

fun run :: "event list \<Rightarrow> system \<Rightarrow> system" where
  "run [] s = s"
| "run (e # es) s = run es (step e s)"

text \<open>
  The invariant of a mounted editor: a pending timeout has the delay 30000 and was
  set in a render with the title, the content and the \<open>saving\<close> of the last
  committed render, which has unsaved changes and no save running.
\<close>

definition timerInvariant :: "system \<Rightarrow> bool" where
  "timerInvariant s =
     (\<forall>delay r. timer s = Some (delay, r) \<longrightarrow>
        delay = 30000 \<and> hasUnsavedChanges (editor s) \<and> \<not> saving (editor s) \<and> \<not> r_saving r
        \<and> r_title r = ed_title (editor s) \<and> r_content r = ed_content (editor s))"

section \<open>The profile (src/components/SettingsDialog.tsx)\<close>

text \<open>\<open>interface UserProfile\<close>, a row of the table \<open>profiles\<close>.\<close>

record UserProfile =
  profile_id :: string
  username :: "string option"
  full_name :: "string option"
  avatar_url :: "string option"
  theme_preference :: string
  auto_save_interval :: int

text \<open>The form of the dialog, and the row after the update of \<open>updateProfile\<close> has succeeded.\<close>

record settingsForm =
  form_fullName :: string
  form_username :: string
  form_autoSaveInterval :: int
  form_themePreference :: string

definition updateProfile :: "settingsForm \<Rightarrow> UserProfile \<Rightarrow> UserProfile" where
  "updateProfile form row =
     row\<lparr>full_name := Some (form_fullName form),
         username := (if truthy (form_username form) then Some (form_username form) else None),
         theme_preference := form_themePreference form,
         auto_save_interval := form_autoSaveInterval form\<rparr>"

definition defaultProfile :: UserProfile where
  "defaultProfile = \<lparr>profile_id = ''u1'', username = None, full_name = Some [], avatar_url = None,
     theme_preference = ''system'', auto_save_interval = 30\<rparr>"

definition formSixty :: settingsForm where
  "formSixty = \<lparr>form_fullName = ''Ann'', form_username = [], form_autoSaveInterval = 60,
     form_themePreference = ''dark''\<rparr>"

section \<open>The tables of the remote store (the migration)\<close>

record database =
  db_notes :: "string option note_row list"
  db_folders :: "folder_row list"

text \<open>
  Deleting the row of a folder. The constraint \<open>notes_folder_id_fkey\<close> is declared
  \<open>ON DELETE SET NULL\<close>: the rows of \<open>notes\<close> that refer to the deleted folder
  are updated to refer to none, and the trigger \<open>handle_notes_updated_at\<close> stamps
  each updated row.
\<close>

definition delete_folder_row :: "string \<Rightarrow> date \<Rightarrow> database \<Rightarrow> database" where
  "delete_folder_row ident now db =
     (if list_ex (\<lambda>f. frow_id f = ident) (db_folders db)
      then \<lparr>db_notes = map (\<lambda>r. if row_folder_id r = Some ident
                                 then r\<lparr>row_folder_id := None, row_updated_at := now\<rparr> else r)
                          (db_notes db),
            db_folders = filter (\<lambda>f. frow_id f \<noteq> ident) (db_folders db)\<rparr>
      else db)"

definition exampleDatabase :: database where
  "exampleDatabase =
     \<lparr>db_notes =
        [\<lparr>row_id = ''n2'', row_title = ''Budget'', row_content = Some ''rent and bills'',
          row_tags = Some [''work'', ''home''], row_is_favorite = Some True, row_folder_id = None,
          row_created_at = 200, row_updated_at = 200\<rparr>,
         \<lparr>row_id = ''n1'', row_title = ''Shopping'', row_content = Some ''milk, eggs'',
          row_tags = Some [''home''], row_is_favorite = Some False, row_folder_id = Some ''f1'',
          row_created_at = 100, row_updated_at = 100\<rparr>],
      db_folders = [\<lparr>frow_id = ''f1'', frow_name = ''Home'', frow_color = None, frow_created_at = 50\<rparr>]\<rparr>"

text \<open>
  The request of \<open>fetchNotes\<close>,
  \<open>select('*').order('updated_at', { ascending: false })\<close>, on the rows of
  \<open>notes\<close> that the user may see: the rows by time of last update, latest first.
  Rows with the same time come in the order of the table (SQL leaves their order
  open). The request may fail, and then carries no rows.
\<close>

definition select_notes :: "database \<Rightarrow> string option \<Rightarrow> string option note_row list response" where
  "select_notes db failure =
     (case failure of
        Some e \<Rightarrow> \<lparr>resp_data = [], resp_error = Some e\<rparr>
      | None \<Rightarrow>
          \<lparr>resp_data = sort_cmp (\<lambda>a b. row_updated_at b - row_updated_at a) (db_notes db),
           resp_error = None\<rparr>)"

definition shuffledDatabase :: database where
  "shuffledDatabase =
     \<lparr>db_notes =
        [\<lparr>row_id = ''n1'', row_title = ''Shopping'', row_content = Some ''milk, eggs'',
          row_tags = Some [''home''], row_is_favorite = Some False, row_folder_id = None,
          row_created_at = 100, row_updated_at = 100\<rparr>,
         \<lparr>row_id = ''n5'', row_title = ''Plan'', row_content = None,
          row_tags = None, row_is_favorite = None, row_folder_id = None,
          row_created_at = 300, row_updated_at = 300\<rparr>,
         \<lparr>row_id = ''n2'', row_title = ''Budget'', row_content = Some ''rent and bills'',
          row_tags = Some [''work''], row_is_favorite = Some True, row_folder_id = None,
          row_created_at = 150, row_updated_at = 200\<rparr>],
      db_folders = []\<rparr>"

text \<open>
  Two runs of an editor. A new note is given a title, the effect marks it as
  changed and the timeout of the auto-save expires. The note "n1" is opened, its
  title and content are blanked and its favorite flag is set.
\<close>

definition autosaveEvents :: "event list" where
  "autosaveEvents = [SetTitle ''x'', Render, RunMarkEffect, Render, TimerExpires]"


section \<open>Facts about the helpers\<close>

lemma set_Set_add_all: "set (Set_add_all seen xs) = set seen \<union> set xs"
  by (induction xs arbitrary: seen) auto

lemma distinct_Set_add_all: "distinct seen \<Longrightarrow> distinct (Set_add_all seen xs)"
  by (induction xs arbitrary: seen) auto

lemma set_Array_from_Set: "set (Array_from_Set xs) = set xs"
  by (simp add: Array_from_Set_def set_Set_add_all)

lemma distinct_Array_from_Set: "distinct (Array_from_Set xs)"
  by (simp add: Array_from_Set_def distinct_Set_add_all)

lemma sort_cmp_Cons: "sort_cmp cmp (x # xs) = insort_cmp cmp x (sort_cmp cmp xs)"
  by (simp add: sort_cmp_def)

lemma set_insort_cmp: "set (insort_cmp cmp x ys) = insert x (set ys)"
  by (induction ys) auto

lemma set_sort_cmp: "set (sort_cmp cmp xs) = set xs"
  by (induction xs) (simp_all add: sort_cmp_def set_insort_cmp)

lemma mset_insort_cmp: "mset (insort_cmp cmp x ys) = add_mset x (mset ys)"
  by (induction ys) auto

lemma mset_sort_cmp: "mset (sort_cmp cmp xs) = mset xs"
  by (induction xs) (simp_all add: sort_cmp_def mset_insort_cmp)

lemma sorted_insort_descending:
  fixes f :: "'a \<Rightarrow> int"
  shows "sorted_wrt (\<lambda>a b. f b \<le> f a) ys \<Longrightarrow>
         sorted_wrt (\<lambda>a b. f b \<le> f a) (insort_cmp (\<lambda>a b. f b - f a) x ys)"
  by (induction ys) (auto simp: set_insort_cmp)

lemma sorted_sort_descending:
  fixes f :: "'a \<Rightarrow> int"
  shows "sorted_wrt (\<lambda>a b. f b \<le> f a) (sort_cmp (\<lambda>a b. f b - f a) xs)"
  by (induction xs) (simp_all add: sort_cmp_def sorted_insort_descending)

section \<open>Write-through\<close>

text \<open>
  C1. Each of the six mutating operations, when its remote request fails (for the
  two inserts also: when there is no authenticated user), throws and leaves the
  whole state, so the notes, the folders and the tag index, as it was. Hence an
  operation that left another state had a remote request that succeeded.
\<close>

theorem remote_failure_leaves_state_unchanged:
  fixes state :: NotesState
  shows
   "(auth_error userResp \<noteq> None \<or> auth_user userResp = None \<longrightarrow>
       addNote noteData userResp noteInsert state = (Inl NotAuthenticated, state)
       \<and> addFolder folderData userResp folderInsert state = (Inl NotAuthenticated, state))
    \<and> (resp_error noteInsert \<noteq> None \<longrightarrow>
         (\<exists>e. addNote noteData userResp noteInsert state = (Inl e, state)))
    \<and> (resp_error folderInsert \<noteq> None \<longrightarrow>
         (\<exists>e. addFolder folderData userResp folderInsert state = (Inl e, state)))
    \<and> (resp_error writeResp = Some msg \<longrightarrow>
         updateNote ident updates now writeResp state = (Inl (RemoteError msg), state)
         \<and> deleteNote ident writeResp state = (Inl (RemoteError msg), state)
         \<and> updateFolder ident folderUpdates writeResp state = (Inl (RemoteError msg), state)
         \<and> deleteFolder ident writeResp state = (Inl (RemoteError msg), state))
    \<and> (snd (addNote noteData userResp noteInsert state) \<noteq> state \<longrightarrow>
         auth_user userResp \<noteq> None \<and> auth_error userResp = None \<and> resp_error noteInsert = None)
    \<and> (snd (addFolder folderData userResp folderInsert state) \<noteq> state \<longrightarrow>
         auth_user userResp \<noteq> None \<and> auth_error userResp = None \<and> resp_error folderInsert = None)
    \<and> (snd (updateNote ident updates now writeResp state) \<noteq> state
         \<or> snd (deleteNote ident writeResp state) \<noteq> state
         \<or> snd (updateFolder ident folderUpdates writeResp state) \<noteq> state
         \<or> snd (deleteFolder ident writeResp state) \<noteq> state \<longrightarrow> resp_error writeResp = None)"
proof -
  have inserts: "auth_error userResp \<noteq> None \<or> auth_user userResp = None \<longrightarrow>
       addNote noteData userResp noteInsert state = (Inl NotAuthenticated, state)
       \<and> addFolder folderData userResp folderInsert state = (Inl NotAuthenticated, state)"
    by (simp add: addNote_def addFolder_def)
  have note_insert: "resp_error noteInsert \<noteq> None \<longrightarrow>
         (\<exists>e. addNote noteData userResp noteInsert state = (Inl e, state))"
    by (auto simp: addNote_def)
  have folder_insert: "resp_error folderInsert \<noteq> None \<longrightarrow>
         (\<exists>e. addFolder folderData userResp folderInsert state = (Inl e, state))"
    by (auto simp: addFolder_def)
  have writes: "resp_error writeResp = Some msg \<longrightarrow>
         updateNote ident updates now writeResp state = (Inl (RemoteError msg), state)
         \<and> deleteNote ident writeResp state = (Inl (RemoteError msg), state)
         \<and> updateFolder ident folderUpdates writeResp state = (Inl (RemoteError msg), state)
         \<and> deleteFolder ident writeResp state = (Inl (RemoteError msg), state)"
    by (simp add: updateNote_def deleteNote_def updateFolder_def deleteFolder_def)
  have only_note: "snd (addNote noteData userResp noteInsert state) \<noteq> state \<longrightarrow>
         auth_user userResp \<noteq> None \<and> auth_error userResp = None \<and> resp_error noteInsert = None"
    by (auto simp: addNote_def split: if_splits option.splits)
  have only_folder: "snd (addFolder folderData userResp folderInsert state) \<noteq> state \<longrightarrow>
         auth_user userResp \<noteq> None \<and> auth_error userResp = None \<and> resp_error folderInsert = None"
    by (auto simp: addFolder_def split: if_splits option.splits)
  have only_writes: "snd (updateNote ident updates now writeResp state) \<noteq> state
         \<or> snd (deleteNote ident writeResp state) \<noteq> state
         \<or> snd (updateFolder ident folderUpdates writeResp state) \<noteq> state
         \<or> snd (deleteFolder ident writeResp state) \<noteq> state \<longrightarrow> resp_error writeResp = None"
    by (auto simp: updateNote_def deleteNote_def updateFolder_def deleteFolder_def
             split: option.splits)
  from inserts note_insert folder_insert writes only_note only_folder only_writes
  show ?thesis by blast
qed

theorem remote_failure_leaves_state_unchanged_witness:
  "auth_user signedOut = None
   \<and> addNote newNoteData signedOut (requestFailed insertedRow) exampleState
       = (Inl NotAuthenticated, exampleState)
   \<and> addFolder newFolderData signedOut (requestFailed insertedFolderRow) exampleState
       = (Inl NotAuthenticated, exampleState)
   \<and> resp_error (requestFailed insertedRow) \<noteq> None
   \<and> (\<exists>e. addNote newNoteData signedIn (requestFailed insertedRow) exampleState = (Inl e, exampleState))
   \<and> resp_error (requestFailed insertedFolderRow) \<noteq> None
   \<and> (\<exists>e. addFolder newFolderData signedIn (requestFailed insertedFolderRow) exampleState
           = (Inl e, exampleState))
   \<and> resp_error (requestFailed ()) = Some ''network''
   \<and> updateNote ''n1'' noUpdates 500 (requestFailed ()) exampleState
       = (Inl (RemoteError ''network''), exampleState)
   \<and> deleteNote ''n1'' (requestFailed ()) exampleState = (Inl (RemoteError ''network''), exampleState)
   \<and> updateFolder ''f1'' noFolderUpdates (requestFailed ()) exampleState
       = (Inl (RemoteError ''network''), exampleState)
   \<and> deleteFolder ''f1'' (requestFailed ()) exampleState = (Inl (RemoteError ''network''), exampleState)
   \<and> snd (addNote newNoteData signedIn (requestOk insertedRow) exampleState) \<noteq> exampleState
   \<and> snd (addFolder newFolderData signedIn (requestOk insertedFolderRow) exampleState) \<noteq> exampleState
   \<and> snd (deleteNote ''n1'' (requestOk ()) exampleState) \<noteq> exampleState
   \<and> auth_user signedIn \<noteq> None \<and> auth_error signedIn = None
   \<and> resp_error (requestOk insertedRow) = None
   \<and> resp_error (requestOk insertedFolderRow) = None
   \<and> resp_error (requestOk ()) = None"
proof -
  have a: "auth_error signedOut \<noteq> None \<or> auth_user signedOut = None"
    and a': "auth_user signedOut = None"
    by (simp_all add: signedOut_def)
  have b: "resp_error (requestFailed insertedRow) \<noteq> None"
    and c: "resp_error (requestFailed insertedFolderRow) \<noteq> None"
    and d: "resp_error (requestFailed ()) = Some ''network''"
    by (simp_all add: requestFailed_def)
  have e: "snd (addNote newNoteData signedIn (requestOk insertedRow) exampleState) \<noteq> exampleState"
    by (simp add: addNote_def signedIn_def requestOk_def exampleState_def Let_def)
  have f: "snd (addFolder newFolderData signedIn (requestOk insertedFolderRow) exampleState) \<noteq> exampleState"
    by (simp add: addFolder_def signedIn_def requestOk_def exampleState_def Let_def)
  have g: "snd (deleteNote ''n1'' (requestOk ()) exampleState) \<noteq> exampleState"
    by (simp add: deleteNote_def requestOk_def exampleState_def noteShopping_def noteBudget_def)
  note main = remote_failure_leaves_state_unchanged
  note fail = main
      [where userResp = signedOut and noteInsert = "requestFailed insertedRow"
         and folderInsert = "requestFailed insertedFolderRow" and writeResp = "requestFailed ()"
         and msg = "''network''" and state = exampleState and noteData = newNoteData
         and folderData = newFolderData and ident = "''n1''" and updates = noUpdates and now = 500
         and folderUpdates = noFolderUpdates]
  note fail2 = main
      [where userResp = signedIn and noteInsert = "requestFailed insertedRow"
         and folderInsert = "requestFailed insertedFolderRow" and writeResp = "requestFailed ()"
         and msg = "''network''" and state = exampleState and noteData = newNoteData
         and folderData = newFolderData and ident = "''f1''" and updates = noUpdates and now = 500
         and folderUpdates = noFolderUpdates]
  note ok = main
      [where userResp = signedIn and noteInsert = "requestOk insertedRow"
         and folderInsert = "requestOk insertedFolderRow" and writeResp = "requestOk ()"
         and state = exampleState and noteData = newNoteData
         and folderData = newFolderData and ident = "''n1''" and updates = noUpdates and now = 500
         and folderUpdates = noFolderUpdates and msg = "''network''"]
  note r1 = fail [THEN conjunct1, THEN mp, OF a]
  note r2 = fail [THEN conjunct2, THEN conjunct2, THEN conjunct2, THEN conjunct1, THEN mp, OF d]
  note r3 = fail2 [THEN conjunct2, THEN conjunct1, THEN mp, OF b]
  note r4 = fail2 [THEN conjunct2, THEN conjunct2, THEN conjunct1, THEN mp, OF c]
  note r5 = fail2 [THEN conjunct2, THEN conjunct2, THEN conjunct2, THEN conjunct1, THEN mp, OF d]
  note r6 = ok [THEN conjunct2, THEN conjunct2, THEN conjunct2, THEN conjunct2, THEN conjunct1,
                THEN mp, OF e]
  note r7 = ok [THEN conjunct2, THEN conjunct2, THEN conjunct2, THEN conjunct2, THEN conjunct2,
                THEN conjunct1, THEN mp, OF f]
  note r8 = ok [THEN conjunct2, THEN conjunct2, THEN conjunct2, THEN conjunct2, THEN conjunct2,
                THEN conjunct2, THEN mp, OF disjI2, OF disjI1, OF g]
  from a' b c d e f g r1 r2 r3 r4 r5 r6 r7 r8 show ?thesis by simp
qed

section \<open>Full reload\<close>

lemma sorted_wrt_noteOfRow:
  "sorted_wrt (\<lambda>a b. updatedAt a \<ge> updatedAt b) (map noteOfRow rows)
   = sorted_wrt (\<lambda>a b. row_updated_at a \<ge> row_updated_at b) rows"
  by (simp add: sorted_wrt_map noteOfRow_def)

lemma select_notes_ok:
  "resp_error (select_notes db None) = None"
  "resp_data (select_notes db None)
   = sort_cmp (\<lambda>a b. row_updated_at b - row_updated_at a) (db_notes db)"
  by (simp_all add: select_notes_def)

lemma fetchNotes_ok:
  "resp_error selectResp = None \<Longrightarrow>
   st_notes (fetchNotes selectResp now state) = map noteOfRow (resp_data selectResp)"
  "resp_error selectResp = None \<Longrightarrow>
   st_tags (fetchNotes selectResp now state)
   = Array_from_Set (concat (map tags (map noteOfRow (resp_data selectResp))))"
  by (simp_all add: fetchNotes_def Let_def)

text \<open>
  C2. After a \<open>fetchNotes\<close> whose select succeeded, the note collection is the
  fetched rows, whatever the collection was before: it has one note per row, in the
  order of the response, and each note has the id, the title, the content, the tags,
  the favorite flag, the two times and the folder of its row, with the empty
  content, no tags and no favorite flag where the row has null. The tag index has no
  duplicates and holds exactly the tags of the fetched rows. The collection is
  ordered by last update, latest first, when the response is; and the response to
  the request that \<open>fetchNotes\<close> sends, which asks for that order, holds exactly
  the rows of the table in that order, so that the collection is ordered and holds
  a note for each row of the table.
\<close>

theorem fetchNotes_overwrites:
  "(resp_error selectResp = None \<longrightarrow>
     st_notes (fetchNotes selectResp now state) = map noteOfRow (resp_data selectResp)
     \<and> map note_id (st_notes (fetchNotes selectResp now state)) = map row_id (resp_data selectResp)
     \<and> map updatedAt (st_notes (fetchNotes selectResp now state))
         = map row_updated_at (resp_data selectResp)
     \<and> (sorted_wrt (\<lambda>a b. row_updated_at a \<ge> row_updated_at b) (resp_data selectResp) \<longrightarrow>
          sorted_wrt (\<lambda>a b. updatedAt a \<ge> updatedAt b) (st_notes (fetchNotes selectResp now state)))
     \<and> set (st_tags (fetchNotes selectResp now state))
         = (\<Union>n \<in> set (st_notes (fetchNotes selectResp now state)). set (tags n))
     \<and> distinct (st_tags (fetchNotes selectResp now state))
     \<and> length (st_notes (fetchNotes selectResp now state)) = length (resp_data selectResp)
     \<and> (k < length (resp_data selectResp) \<longrightarrow>
          note_id (st_notes (fetchNotes selectResp now state) ! k) = row_id (resp_data selectResp ! k)
          \<and> title (st_notes (fetchNotes selectResp now state) ! k)
              = row_title (resp_data selectResp ! k)
          \<and> content (st_notes (fetchNotes selectResp now state) ! k)
              = (case row_content (resp_data selectResp ! k) of None \<Rightarrow> [] | Some c \<Rightarrow> c)
          \<and> tags (st_notes (fetchNotes selectResp now state) ! k)
              = (case row_tags (resp_data selectResp ! k) of None \<Rightarrow> [] | Some ts \<Rightarrow> ts)
          \<and> isFavorite (st_notes (fetchNotes selectResp now state) ! k)
              = (case row_is_favorite (resp_data selectResp ! k) of None \<Rightarrow> False | Some b \<Rightarrow> b)
          \<and> createdAt (st_notes (fetchNotes selectResp now state) ! k)
              = row_created_at (resp_data selectResp ! k)
          \<and> updatedAt (st_notes (fetchNotes selectResp now state) ! k)
              = row_updated_at (resp_data selectResp ! k)
          \<and> folderId (st_notes (fetchNotes selectResp now state) ! k)
              = row_folder_id (resp_data selectResp ! k))
     \<and> set (st_tags (fetchNotes selectResp now state))
         = (\<Union>r \<in> set (resp_data selectResp). case row_tags r of None \<Rightarrow> {} | Some ts \<Rightarrow> set ts))
   \<and> resp_error (select_notes db None) = None
   \<and> mset (resp_data (select_notes db None)) = mset (db_notes db)
   \<and> sorted_wrt (\<lambda>a b. row_updated_at a \<ge> row_updated_at b) (resp_data (select_notes db None))
   \<and> sorted_wrt (\<lambda>a b. updatedAt a \<ge> updatedAt b)
        (st_notes (fetchNotes (select_notes db None) now state))
   \<and> mset (map note_id (st_notes (fetchNotes (select_notes db None) now state)))
       = mset (map row_id (db_notes db))"
proof -
  let ?rows = "resp_data selectResp"
  let ?F = "fetchNotes selectResp now state"
  have general: "st_notes ?F = map noteOfRow ?rows
     \<and> map note_id (st_notes ?F) = map row_id ?rows
     \<and> map updatedAt (st_notes ?F) = map row_updated_at ?rows
     \<and> (sorted_wrt (\<lambda>a b. row_updated_at a \<ge> row_updated_at b) ?rows \<longrightarrow>
          sorted_wrt (\<lambda>a b. updatedAt a \<ge> updatedAt b) (st_notes ?F))
     \<and> set (st_tags ?F) = (\<Union>n \<in> set (st_notes ?F). set (tags n))
     \<and> distinct (st_tags ?F)
     \<and> length (st_notes ?F) = length ?rows
     \<and> (k < length ?rows \<longrightarrow>
          note_id (st_notes ?F ! k) = row_id (?rows ! k)
          \<and> title (st_notes ?F ! k) = row_title (?rows ! k)
          \<and> content (st_notes ?F ! k)
              = (case row_content (?rows ! k) of None \<Rightarrow> [] | Some c \<Rightarrow> c)
          \<and> tags (st_notes ?F ! k)
              = (case row_tags (?rows ! k) of None \<Rightarrow> [] | Some ts \<Rightarrow> ts)
          \<and> isFavorite (st_notes ?F ! k)
              = (case row_is_favorite (?rows ! k) of None \<Rightarrow> False | Some b \<Rightarrow> b)
          \<and> createdAt (st_notes ?F ! k) = row_created_at (?rows ! k)
          \<and> updatedAt (st_notes ?F ! k) = row_updated_at (?rows ! k)
          \<and> folderId (st_notes ?F ! k) = row_folder_id (?rows ! k))
     \<and> set (st_tags ?F)
         = (\<Union>r \<in> set ?rows. case row_tags r of None \<Rightarrow> {} | Some ts \<Rightarrow> set ts)"
    if ok: "resp_error selectResp = None"
  proof -
    note n = fetchNotes_ok(1) [OF ok, of now state]
    note t = fetchNotes_ok(2) [OF ok, of now state]
    have ids: "map note_id (map noteOfRow ?rows) = map row_id ?rows"
      by (simp add: noteOfRow_def)
    have ups: "map updatedAt (map noteOfRow ?rows) = map row_updated_at ?rows"
      by (simp add: noteOfRow_def)
    have tagset: "set (Array_from_Set (concat (map tags (map noteOfRow ?rows))))
                  = (\<Union>n \<in> set (map noteOfRow ?rows). set (tags n))"
      by (simp add: set_Array_from_Set)
    have rowtags: "(\<Union>n \<in> set (map noteOfRow ?rows). set (tags n))
                  = (\<Union>r \<in> set ?rows. case row_tags r of None \<Rightarrow> {} | Some ts \<Rightarrow> set ts)"
    proof -
      have "set (tags (noteOfRow r)) = (case row_tags r of None \<Rightarrow> {} | Some ts \<Rightarrow> set ts)" for r
        by (simp add: noteOfRow_def split: option.splits)
      then show ?thesis by simp
    qed
    have fields: "k < length ?rows \<longrightarrow>
          note_id (map noteOfRow ?rows ! k) = row_id (?rows ! k)
          \<and> title (map noteOfRow ?rows ! k) = row_title (?rows ! k)
          \<and> content (map noteOfRow ?rows ! k)
              = (case row_content (?rows ! k) of None \<Rightarrow> [] | Some c \<Rightarrow> c)
          \<and> tags (map noteOfRow ?rows ! k)
              = (case row_tags (?rows ! k) of None \<Rightarrow> [] | Some ts \<Rightarrow> ts)
          \<and> isFavorite (map noteOfRow ?rows ! k)
              = (case row_is_favorite (?rows ! k) of None \<Rightarrow> False | Some b \<Rightarrow> b)
          \<and> createdAt (map noteOfRow ?rows ! k) = row_created_at (?rows ! k)
          \<and> updatedAt (map noteOfRow ?rows ! k) = row_updated_at (?rows ! k)
          \<and> folderId (map noteOfRow ?rows ! k) = row_folder_id (?rows ! k)"
      by (simp add: noteOfRow_def)
    show ?thesis
      unfolding n t using ids ups tagset rowtags fields sorted_wrt_noteOfRow [of ?rows]
      by (simp add: distinct_Array_from_Set)
  qed
  let ?sel = "select_notes db None"
  have ok: "resp_error ?sel = None" by (rule select_notes_ok)
  have perm: "mset (resp_data ?sel) = mset (db_notes db)"
    by (simp add: select_notes_ok mset_sort_cmp)
  have srt: "sorted_wrt (\<lambda>a b. row_updated_at a \<ge> row_updated_at b) (resp_data ?sel)"
    unfolding select_notes_ok by (rule sorted_sort_descending)
  have fetched: "st_notes (fetchNotes ?sel now state) = map noteOfRow (resp_data ?sel)"
    by (rule fetchNotes_ok(1) [OF ok])
  have srt_notes: "sorted_wrt (\<lambda>a b. updatedAt a \<ge> updatedAt b) (st_notes (fetchNotes ?sel now state))"
    unfolding fetched sorted_wrt_noteOfRow by (rule srt)
  have "map note_id (map noteOfRow (resp_data ?sel)) = map row_id (resp_data ?sel)"
    by (simp add: noteOfRow_def)
  then have ids: "mset (map note_id (st_notes (fetchNotes ?sel now state))) = mset (map row_id (db_notes db))"
    unfolding fetched using perm by (metis mset_map)
  from general ok perm srt srt_notes ids show ?thesis by blast
qed

theorem fetchNotes_overwrites_witness:
  "resp_error (requestOk fetchedRows) = None
   \<and> sorted_wrt (\<lambda>a b. row_updated_at a \<ge> row_updated_at b) (resp_data (requestOk fetchedRows))
   \<and> (1::nat) < length (resp_data (requestOk fetchedRows))
   \<and> map note_id (st_notes (fetchNotes (requestOk fetchedRows) 500 exampleState)) = [''n2'', ''n4'']
   \<and> sorted_wrt (\<lambda>a b. updatedAt a \<ge> updatedAt b)
        (st_notes (fetchNotes (requestOk fetchedRows) 500 exampleState))
   \<and> set (st_tags (fetchNotes (requestOk fetchedRows) 500 exampleState)) = {''work''}
   \<and> distinct (st_tags (fetchNotes (requestOk fetchedRows) 500 exampleState))
   \<and> length (st_notes (fetchNotes (requestOk fetchedRows) 500 exampleState)) = 2
   \<and> st_notes (fetchNotes (requestOk fetchedRows) 500 exampleState) ! 1
      = \<lparr>note_id = ''n4'', title = ''Draft'', content = [], tags = [], isFavorite = False,
         createdAt = 150, updatedAt = 150, folderId = None\<rparr>
   \<and> map note_id (st_notes (fetchNotes (select_notes shuffledDatabase None) 500 exampleState))
      = [''n5'', ''n2'', ''n1'']"
proof -
  let ?F = "fetchNotes (requestOk fetchedRows) 500 exampleState"
  have ok: "resp_error (requestOk fetchedRows) = None"
    by (simp add: requestOk_def)
  have srt: "sorted_wrt (\<lambda>a b. row_updated_at a \<ge> row_updated_at b) (resp_data (requestOk fetchedRows))"
    by (simp add: requestOk_def fetchedRows_def)
  have k: "(1::nat) < length (resp_data (requestOk fetchedRows))"
    by (simp add: requestOk_def fetchedRows_def)
  note whole = fetchNotes_overwrites [of "requestOk fetchedRows" 500 exampleState 1 shuffledDatabase]
  note main = whole [THEN conjunct1, THEN mp, OF ok]
  note ids = main [THEN conjunct2, THEN conjunct1]
  note sorted = main [THEN conjunct2, THEN conjunct2, THEN conjunct2, THEN conjunct1, THEN mp, OF srt]
  note dist = main [THEN conjunct2, THEN conjunct2, THEN conjunct2, THEN conjunct2, THEN conjunct2,
                    THEN conjunct1]
  note len = main [THEN conjunct2, THEN conjunct2, THEN conjunct2, THEN conjunct2, THEN conjunct2,
                   THEN conjunct2, THEN conjunct1]
  note fields = main [THEN conjunct2, THEN conjunct2, THEN conjunct2, THEN conjunct2, THEN conjunct2,
                      THEN conjunct2, THEN conjunct2, THEN conjunct1, THEN mp, OF k]
  note rowtags = main [THEN conjunct2, THEN conjunct2, THEN conjunct2, THEN conjunct2, THEN conjunct2,
                       THEN conjunct2, THEN conjunct2, THEN conjunct2]
  have ids': "map note_id (st_notes ?F) = [''n2'', ''n4'']"
    using ids by (simp add: requestOk_def fetchedRows_def)
  have tags': "set (st_tags ?F) = {''work''}"
    using rowtags by (simp add: requestOk_def fetchedRows_def)
  have len': "length (st_notes ?F) = 2"
    using len by (simp add: requestOk_def fetchedRows_def)
  have row1: "resp_data (requestOk fetchedRows) ! 1
      = \<lparr>row_id = ''n4'', row_title = ''Draft'', row_content = None,
         row_tags = None, row_is_favorite = None, row_folder_id = None,
         row_created_at = 150, row_updated_at = 150\<rparr>"
    by (simp add: requestOk_def fetchedRows_def)
  have note1: "st_notes ?F ! 1
      = \<lparr>note_id = ''n4'', title = ''Draft'', content = [], tags = [], isFavorite = False,
         createdAt = 150, updatedAt = 150, folderId = None\<rparr>"
    using fields unfolding row1 by (cases "st_notes ?F ! 1") simp
  have ordered: "map note_id (st_notes (fetchNotes (select_notes shuffledDatabase None) 500 exampleState))
      = [''n5'', ''n2'', ''n1'']"
    by (simp add: fetchNotes_def select_notes_def shuffledDatabase_def sort_cmp_def noteOfRow_def
                  Let_def)
  from ok srt k ids' sorted tags' dist len' note1 ordered show ?thesis by (intro conjI)
qed

section \<open>The tag index under single mutations\<close>

text \<open>
  C6. A successful \<open>addNote\<close> puts the new note in front and makes the tag index
  the old index together with the new note's tags; a successful \<open>updateNote\<close>
  makes it the old index together with the tags given in the update, if any; and
  \<open>deleteNote\<close> leaves the index as it was, so a tag stays in the index when the
  last note that carried it is deleted. When the index holds the tags of every note,
  it still does after \<open>addNote\<close> and after \<open>updateNote\<close>, so it holds the tags of
  the note added or updated.
\<close>

theorem tag_index_additive:
  "(addNote noteData userResp insertResp state = (Inr (), stateA) \<longrightarrow>
      (\<exists>newNote. st_notes stateA = newNote # st_notes state
          \<and> set (st_tags stateA) = set (st_tags state) \<union> set (tags newNote)))
   \<and> (updateNote ident updates now updateResp state = (Inr (), stateU) \<longrightarrow>
        set (st_tags stateU)
        = set (st_tags state) \<union> (case u_tags updates of None \<Rightarrow> {} | Some ts \<Rightarrow> set ts))
   \<and> st_tags (snd (deleteNote ident deleteResp state)) = st_tags state
   \<and> ((\<forall>n \<in> set (st_notes state). set (tags n) \<subseteq> set (st_tags state)) \<longrightarrow>
        (\<forall>m \<in> set (st_notes (snd (addNote noteData userResp insertResp state))).
            set (tags m) \<subseteq> set (st_tags (snd (addNote noteData userResp insertResp state))))
        \<and> (\<forall>m \<in> set (st_notes (snd (updateNote ident updates now updateResp state))).
            set (tags m) \<subseteq> set (st_tags (snd (updateNote ident updates now updateResp state)))))"
proof -
  have add: "addNote noteData userResp insertResp state = (Inr (), stateA) \<longrightarrow>
      (\<exists>newNote. st_notes stateA = newNote # st_notes state
          \<and> set (st_tags stateA) = set (st_tags state) \<union> set (tags newNote))"
    by (auto simp: addNote_def Let_def set_Array_from_Set split: if_splits option.splits)
  have upd: "updateNote ident updates now updateResp state = (Inr (), stateU) \<longrightarrow>
        set (st_tags stateU)
        = set (st_tags state) \<union> (case u_tags updates of None \<Rightarrow> {} | Some ts \<Rightarrow> set ts)"
    by (auto simp: updateNote_def set_Array_from_Set split: option.splits)
  have del: "st_tags (snd (deleteNote ident deleteResp state)) = st_tags state"
    by (simp add: deleteNote_def split: option.splits)
  have inv_add: "\<forall>m \<in> set (st_notes (snd (addNote noteData userResp insertResp state))).
            set (tags m) \<subseteq> set (st_tags (snd (addNote noteData userResp insertResp state)))"
    if "\<forall>n \<in> set (st_notes state). set (tags n) \<subseteq> set (st_tags state)"
    using that by (auto simp: addNote_def Let_def set_Array_from_Set split: option.splits)
  have inv_upd: "\<forall>m \<in> set (st_notes (snd (updateNote ident updates now updateResp state))).
            set (tags m) \<subseteq> set (st_tags (snd (updateNote ident updates now updateResp state)))"
    if "\<forall>n \<in> set (st_notes state). set (tags n) \<subseteq> set (st_tags state)"
    using that
    by (fastforce simp: updateNote_def mergeNote_def set_Array_from_Set
                  split: option.splits if_splits)
  from inv_add inv_upd
  have inv: "(\<forall>n \<in> set (st_notes state). set (tags n) \<subseteq> set (st_tags state)) \<longrightarrow>
        (\<forall>m \<in> set (st_notes (snd (addNote noteData userResp insertResp state))).
            set (tags m) \<subseteq> set (st_tags (snd (addNote noteData userResp insertResp state))))
        \<and> (\<forall>m \<in> set (st_notes (snd (updateNote ident updates now updateResp state))).
            set (tags m) \<subseteq> set (st_tags (snd (updateNote ident updates now updateResp state))))"
    by blast
  from add upd del inv show ?thesis by (intro conjI)
qed

theorem tag_index_additive_witness:
  "addNote newNoteData signedIn (requestOk insertedRow) exampleState
     = (Inr (), snd (addNote newNoteData signedIn (requestOk insertedRow) exampleState))
   \<and> set (st_tags (snd (addNote newNoteData signedIn (requestOk insertedRow) exampleState)))
       = {''work'', ''home'', ''travel''}
   \<and> updateNote ''n1'' (noUpdates\<lparr>u_tags := Some [''errands'']\<rparr>) 500 (requestOk ()) exampleState
       = (Inr (), snd (updateNote ''n1'' (noUpdates\<lparr>u_tags := Some [''errands'']\<rparr>) 500 (requestOk ())
                         exampleState))
   \<and> set (st_tags (snd (updateNote ''n1'' (noUpdates\<lparr>u_tags := Some [''errands'']\<rparr>) 500
                         (requestOk ()) exampleState)))
       = {''work'', ''home'', ''errands''}
   \<and> st_notes (snd (deleteNote ''n2'' (requestOk ()) exampleState)) = [noteShopping]
   \<and> ''work'' \<notin> set (tags noteShopping)
   \<and> ''work'' \<in> set (st_tags (snd (deleteNote ''n2'' (requestOk ()) exampleState)))
   \<and> list_all (\<lambda>n. set (tags n) \<subseteq> set (st_tags exampleState)) (st_notes exampleState)
   \<and> list_all (\<lambda>m. set (tags m) \<subseteq> set (st_tags (snd (updateNote ''n1''
                        (noUpdates\<lparr>u_tags := Some [''errands'']\<rparr>) 500 (requestOk ()) exampleState))))
        (st_notes (snd (updateNote ''n1'' (noUpdates\<lparr>u_tags := Some [''errands'']\<rparr>) 500
                          (requestOk ()) exampleState)))"
proof -
  let ?a = "addNote newNoteData signedIn (requestOk insertedRow) exampleState"
  let ?u = "updateNote ''n1'' (noUpdates\<lparr>u_tags := Some [''errands'']\<rparr>) 500 (requestOk ()) exampleState"
  have a: "?a = (Inr (), snd ?a)"
    by (simp add: addNote_def signedIn_def requestOk_def Let_def)
  have u: "?u = (Inr (), snd ?u)"
    by (simp add: updateNote_def requestOk_def)
  note main = tag_index_additive
     [where noteData = newNoteData and userResp = signedIn and insertResp = "requestOk insertedRow"
        and state = exampleState and stateA = "snd ?a" and ident = "''n1''"
        and updates = "noUpdates\<lparr>u_tags := Some [''errands'']\<rparr>" and now = 500
        and updateResp = "requestOk ()" and stateU = "snd ?u"]
  note main2 = tag_index_additive [where ident = "''n2''" and deleteResp = "requestOk ()"
        and state = exampleState]
  from main [THEN conjunct1, THEN mp, OF a]
  have r1: "set (st_tags (snd ?a)) = {''work'', ''home'', ''travel''}"
    by (auto simp: addNote_def signedIn_def requestOk_def Let_def exampleState_def insertedRow_def)
  from main [THEN conjunct2, THEN conjunct1, THEN mp, OF u]
  have r2: "set (st_tags (snd ?u)) = {''work'', ''home'', ''errands''}"
    by (auto simp: exampleState_def noUpdates_def)
  from main2 [THEN conjunct2, THEN conjunct2]
  have r3: "''work'' \<in> set (st_tags (snd (deleteNote ''n2'' (requestOk ()) exampleState)))"
    by (simp add: exampleState_def)
  have r4: "st_notes (snd (deleteNote ''n2'' (requestOk ()) exampleState)) = [noteShopping]"
    by (simp add: deleteNote_def requestOk_def exampleState_def noteShopping_def noteBudget_def)
  have r5: "''work'' \<notin> set (tags noteShopping)"
    by (simp add: noteShopping_def)
  have h: "\<forall>n \<in> set (st_notes exampleState). set (tags n) \<subseteq> set (st_tags exampleState)"
    by (simp add: exampleState_def noteShopping_def noteBudget_def)
  note kept = main [THEN conjunct2, THEN conjunct2, THEN conjunct2, THEN mp, OF h, THEN conjunct2]
  from h have r6: "list_all (\<lambda>n. set (tags n) \<subseteq> set (st_tags exampleState)) (st_notes exampleState)"
    by (simp add: list_all_iff)
  from kept have r7: "list_all (\<lambda>m. set (tags m) \<subseteq> set (st_tags (snd ?u))) (st_notes (snd ?u))"
    by (simp add: list_all_iff)
  from a u r1 r2 r3 r4 r5 r6 r7 show ?thesis by (intro conjI)
qed

section \<open>Partial updates\<close>

text \<open>
  C3, as the claim states it, fails: the stored note's \<open>updatedAt\<close> becomes what the
  client's clock reads, which need not be later than the value it replaces (here a
  note last updated at 100, by the server's clock, is updated when the client's
  clock reads 90).
\<close>

theorem updatedAt_not_strictly_increasing:
  "fst (updateNote ''n1'' (noUpdates\<lparr>u_isFavorite := Some True\<rparr>) 90 (requestOk ()) exampleState)
     = Inr ()
   \<and> map note_id (st_notes exampleState) = [''n2'', ''n1'']
   \<and> map updatedAt (st_notes exampleState) = [200, 100]
   \<and> map note_id (st_notes (snd (updateNote ''n1'' (noUpdates\<lparr>u_isFavorite := Some True\<rparr>) 90
                                   (requestOk ()) exampleState))) = [''n2'', ''n1'']
   \<and> map updatedAt (st_notes (snd (updateNote ''n1'' (noUpdates\<lparr>u_isFavorite := Some True\<rparr>) 90
                                   (requestOk ()) exampleState))) = [200, 90]"
  by (simp add: updateNote_def requestOk_def exampleState_def noteShopping_def noteBudget_def
                noUpdates_def mergeNote_def)

text \<open>
  C3, amended. After a successful \<open>updateNote\<close> the collection has the same
  length; a note whose id is not the given one is unchanged; a note whose id is the
  given one has, in every field but \<open>updatedAt\<close>, the value of the update where
  the update gives one and its old value where it gives none; and its \<open>updatedAt\<close>
  is what the clock read, whatever the update says, so it has increased exactly when
  the clock reads later than the old value.
\<close>

theorem updateNote_frame:
  "updateNote ident updates now updateResp state = (Inr (), state') \<and> k < length (st_notes state)
   \<longrightarrow>
     length (st_notes state') = length (st_notes state)
     \<and> (note_id (st_notes state ! k) \<noteq> ident \<longrightarrow> st_notes state' ! k = st_notes state ! k)
     \<and> (note_id (st_notes state ! k) = ident \<longrightarrow>
          note_id (st_notes state' ! k)
            = (case u_id updates of None \<Rightarrow> note_id (st_notes state ! k) | Some v \<Rightarrow> v)
          \<and> title (st_notes state' ! k)
            = (case u_title updates of None \<Rightarrow> title (st_notes state ! k) | Some v \<Rightarrow> v)
          \<and> content (st_notes state' ! k)
            = (case u_content updates of None \<Rightarrow> content (st_notes state ! k) | Some v \<Rightarrow> v)
          \<and> tags (st_notes state' ! k)
            = (case u_tags updates of None \<Rightarrow> tags (st_notes state ! k) | Some v \<Rightarrow> v)
          \<and> isFavorite (st_notes state' ! k)
            = (case u_isFavorite updates of None \<Rightarrow> isFavorite (st_notes state ! k) | Some v \<Rightarrow> v)
          \<and> createdAt (st_notes state' ! k)
            = (case u_createdAt updates of None \<Rightarrow> createdAt (st_notes state ! k) | Some v \<Rightarrow> v)
          \<and> folderId (st_notes state' ! k)
            = (case u_folderId updates of None \<Rightarrow> folderId (st_notes state ! k) | Some v \<Rightarrow> v)
          \<and> updatedAt (st_notes state' ! k) = now
          \<and> (updatedAt (st_notes state ! k) < updatedAt (st_notes state' ! k)
               \<longleftrightarrow> updatedAt (st_notes state ! k) < now))"
proof
  assume h: "updateNote ident updates now updateResp state = (Inr (), state') \<and> k < length (st_notes state)"
  then have k: "k < length (st_notes state)" by simp
  from h have ns: "st_notes state'
      = map (\<lambda>note. if note_id note = ident then mergeNote note updates now else note) (st_notes state)"
    by (auto simp: updateNote_def split: option.splits)
  have len: "length (st_notes state') = length (st_notes state)"
    by (simp add: ns)
  have at: "st_notes state' ! k
      = (if note_id (st_notes state ! k) = ident then mergeNote (st_notes state ! k) updates now
         else st_notes state ! k)"
    using k by (simp add: ns)
  show "length (st_notes state') = length (st_notes state)
     \<and> (note_id (st_notes state ! k) \<noteq> ident \<longrightarrow> st_notes state' ! k = st_notes state ! k)
     \<and> (note_id (st_notes state ! k) = ident \<longrightarrow>
          note_id (st_notes state' ! k)
            = (case u_id updates of None \<Rightarrow> note_id (st_notes state ! k) | Some v \<Rightarrow> v)
          \<and> title (st_notes state' ! k)
            = (case u_title updates of None \<Rightarrow> title (st_notes state ! k) | Some v \<Rightarrow> v)
          \<and> content (st_notes state' ! k)
            = (case u_content updates of None \<Rightarrow> content (st_notes state ! k) | Some v \<Rightarrow> v)
          \<and> tags (st_notes state' ! k)
            = (case u_tags updates of None \<Rightarrow> tags (st_notes state ! k) | Some v \<Rightarrow> v)
          \<and> isFavorite (st_notes state' ! k)
            = (case u_isFavorite updates of None \<Rightarrow> isFavorite (st_notes state ! k) | Some v \<Rightarrow> v)
          \<and> createdAt (st_notes state' ! k)
            = (case u_createdAt updates of None \<Rightarrow> createdAt (st_notes state ! k) | Some v \<Rightarrow> v)
          \<and> folderId (st_notes state' ! k)
            = (case u_folderId updates of None \<Rightarrow> folderId (st_notes state ! k) | Some v \<Rightarrow> v)
          \<and> updatedAt (st_notes state' ! k) = now
          \<and> (updatedAt (st_notes state ! k) < updatedAt (st_notes state' ! k)
               \<longleftrightarrow> updatedAt (st_notes state ! k) < now))"
    unfolding at len by (simp add: mergeNote_def)
qed

theorem updateNote_frame_witness:
  "updateNote ''n1'' (noUpdates\<lparr>u_isFavorite := Some True\<rparr>) 500 (requestOk ()) exampleState
     = (Inr (), snd (updateNote ''n1'' (noUpdates\<lparr>u_isFavorite := Some True\<rparr>) 500 (requestOk ())
                       exampleState))
   \<and> (0::nat) < length (st_notes exampleState) \<and> (1::nat) < length (st_notes exampleState)
   \<and> note_id (st_notes exampleState ! 0) \<noteq> ''n1'' \<and> note_id (st_notes exampleState ! 1) = ''n1''
   \<and> st_notes (snd (updateNote ''n1'' (noUpdates\<lparr>u_isFavorite := Some True\<rparr>) 500 (requestOk ())
                       exampleState))
      = [noteBudget, noteShopping\<lparr>isFavorite := True, updatedAt := 500\<rparr>]"
proof -
  let ?u = "noUpdates\<lparr>u_isFavorite := Some True\<rparr>"
  let ?r = "updateNote ''n1'' ?u 500 (requestOk ()) exampleState"
  have ok: "?r = (Inr (), snd ?r)"
    by (simp add: updateNote_def requestOk_def)
  have k0: "(0::nat) < length (st_notes exampleState)" and k1: "(1::nat) < length (st_notes exampleState)"
    by (simp_all add: exampleState_def)
  have i0: "note_id (st_notes exampleState ! 0) \<noteq> ''n1''"
    and i1: "note_id (st_notes exampleState ! 1) = ''n1''"
    by (simp_all add: exampleState_def noteBudget_def noteShopping_def)
  note at0 = updateNote_frame [of "''n1''" ?u 500 "requestOk ()" exampleState "snd ?r" 0,
                THEN mp, OF conjI, OF ok k0]
  note at1 = updateNote_frame [of "''n1''" ?u 500 "requestOk ()" exampleState "snd ?r" 1,
                THEN mp, OF conjI, OF ok k1]
  note len = at0 [THEN conjunct1]
  note same = at0 [THEN conjunct2, THEN conjunct1, THEN mp, OF i0]
  note merged = at1 [THEN conjunct2, THEN conjunct2, THEN mp, OF i1]
  have e0: "st_notes (snd ?r) ! 0 = noteBudget"
    using same by (simp add: exampleState_def)
  have e1: "st_notes (snd ?r) ! 1 = noteShopping\<lparr>isFavorite := True, updatedAt := 500\<rparr>"
    using merged by (simp add: exampleState_def noUpdates_def noteShopping_def)
  have l: "length (st_notes (snd ?r)) = 2"
    using len by (simp add: exampleState_def)
  have "st_notes (snd ?r) = [st_notes (snd ?r) ! 0, st_notes (snd ?r) ! 1]"
    using l by (auto simp: list_eq_iff_nth_eq less_Suc_eq numeral_2_eq_2)
  with e0 e1 have "st_notes (snd ?r) = [noteBudget, noteShopping\<lparr>isFavorite := True, updatedAt := 500\<rparr>]"
    by simp
  with ok k0 k1 i0 i1 show ?thesis by (intro conjI)
qed

section \<open>Sorting in the list view\<close>

lemma compare_favorites_same:
  "isFavorite a = isFavorite b \<Longrightarrow> compareNotes lc ByFavorite a b = compareNotes lc ByDate a b"
  by (simp add: compareNotes_def)

lemma insort_among_same:
  "\<forall>y \<in> set ys. isFavorite y = isFavorite x \<Longrightarrow>
   insort_cmp (compareNotes lc ByFavorite) x ys = insort_cmp (compareNotes lc ByDate) x ys"
  by (induction ys) (simp_all add: compare_favorites_same)

lemma insort_favorite:
  assumes "\<forall>y \<in> set favs. isFavorite y" and "\<forall>y \<in> set others. \<not> isFavorite y"
    and "isFavorite x"
  shows "insort_cmp (compareNotes lc ByFavorite) x (favs @ others)
         = insort_cmp (compareNotes lc ByDate) x favs @ others"
  using assms
proof (induction favs)
  case Nil
  then show ?case by (cases others) (simp_all add: compareNotes_def)
next
  case (Cons y favs)
  then show ?case by (simp add: compare_favorites_same)
qed

lemma insort_other:
  assumes "\<forall>y \<in> set favs. isFavorite y" and "\<forall>y \<in> set others. \<not> isFavorite y"
    and "\<not> isFavorite x"
  shows "insort_cmp (compareNotes lc ByFavorite) x (favs @ others)
         = favs @ insort_cmp (compareNotes lc ByDate) x others"
  using assms
proof (induction favs)
  case Nil
  then show ?case by (simp add: insort_among_same)
next
  case (Cons y favs)
  then show ?case by (simp add: compareNotes_def)
qed

lemma sort_by_favorite:
  "sort_cmp (compareNotes lc ByFavorite) xs
   = sort_cmp (compareNotes lc ByDate) (filter isFavorite xs)
     @ sort_cmp (compareNotes lc ByDate) (filter (\<lambda>n. \<not> isFavorite n) xs)"
proof (induction xs)
  case Nil
  show ?case by (simp add: sort_cmp_def)
next
  case (Cons x xs)
  let ?F = "sort_cmp (compareNotes lc ByDate) (filter isFavorite xs)"
  let ?O = "sort_cmp (compareNotes lc ByDate) (filter (\<lambda>n. \<not> isFavorite n) xs)"
  have f: "\<forall>y \<in> set ?F. isFavorite y" and o: "\<forall>y \<in> set ?O. \<not> isFavorite y"
    by (simp_all add: set_sort_cmp)
  show ?case
  proof (cases "isFavorite x")
    case True
    with Cons insort_favorite [OF f o True] show ?thesis
      by (simp add: sort_cmp_Cons)
  next
    case False
    with Cons insort_other [OF f o False] show ?thesis
      by (simp add: sort_cmp_Cons)
  qed
qed

lemma sorted_insort_by_date:
  "sorted_wrt (\<lambda>a b. updatedAt b \<le> updatedAt a) ys \<Longrightarrow>
   sorted_wrt (\<lambda>a b. updatedAt b \<le> updatedAt a) (insort_cmp (compareNotes lc ByDate) x ys)"
  by (induction ys) (auto simp: compareNotes_def set_insort_cmp)

lemma sorted_sort_by_date:
  "sorted_wrt (\<lambda>a b. updatedAt b \<le> updatedAt a) (sort_cmp (compareNotes lc ByDate) xs)"
  by (induction xs) (simp_all add: sort_cmp_def sorted_insort_by_date)

lemma filter_insort_by_date:
  "filter (\<lambda>n. updatedAt n = t) (insort_cmp (compareNotes lc ByDate) x ys)
   = filter (\<lambda>n. updatedAt n = t) (x # ys)"
  by (induction ys) (auto simp: compareNotes_def)

lemma stable_sort_by_date:
  "filter (\<lambda>n. updatedAt n = t) (sort_cmp (compareNotes lc ByDate) xs)
   = filter (\<lambda>n. updatedAt n = t) xs"
  by (induction xs) (simp_all add: sort_cmp_def filter_insort_by_date)

text \<open>
  C4, as the claim states it, fails: with the key \<open>favorite\<close> the comparison
  function falls through to the comparison by date for two notes that are both
  favorites or both not, so for A (not a favorite, updated at 1), B (a favorite) and
  C (not a favorite, updated at 3), in that order, the view shows B, C, A.
\<close>

theorem sort_by_favorite_reorders_non_favorites:
  "map isFavorite [noteA, noteB, noteC] = [False, True, False]
   \<and> map updatedAt [noteA, noteB, noteC] = [1, 2, 3]
   \<and> filteredNotes constantCollation [noteA, noteB, noteC] [] None ByFavorite = [noteB, noteC, noteA]
   \<and> filteredNotes constantCollation [noteA, noteB, noteC] [] None ByFavorite \<noteq> [noteB, noteA, noteC]"
  by (simp add: filteredNotes_def sort_cmp_def compareNotes_def matchesSearch_def matchesTag_def
                noteA_def noteB_def noteC_def toLowerCase_def)

text \<open>
  C4, amended. With the key \<open>favorite\<close> the view shows the favorites that pass the
  filter and then the other notes that pass it, each of the two groups as the key
  \<open>date\<close> orders it: by last update, latest first, and in the order of the
  collection among notes with the same time of update. No note is lost or shown
  twice.
\<close>

theorem sort_by_favorite_then_date:
  "filteredNotes lc noteList q sel ByFavorite
     = filteredNotes lc (filter isFavorite noteList) q sel ByDate
       @ filteredNotes lc (filter (\<lambda>n. \<not> isFavorite n) noteList) q sel ByDate
   \<and> sorted_wrt (\<lambda>a b. updatedAt b \<le> updatedAt a) (filteredNotes lc noteList q sel ByDate)
   \<and> filter (\<lambda>n. updatedAt n = t) (filteredNotes lc noteList q sel ByDate)
     = filter (\<lambda>n. matchesSearch n q \<and> matchesTag n sel \<and> updatedAt n = t) noteList
   \<and> mset (filteredNotes lc noteList q sel ByFavorite)
     = mset (filter (\<lambda>n. matchesSearch n q \<and> matchesTag n sel) noteList)"
proof -
  let ?P = "\<lambda>note. matchesSearch note q \<and> matchesTag note sel"
  have comm1: "filter isFavorite (filter ?P noteList) = filter ?P (filter isFavorite noteList)"
    and comm2: "filter (\<lambda>n. \<not> isFavorite n) (filter ?P noteList)
                = filter ?P (filter (\<lambda>n. \<not> isFavorite n) noteList)"
    by (auto intro: filter_cong)
  have split: "filteredNotes lc noteList q sel ByFavorite
     = filteredNotes lc (filter isFavorite noteList) q sel ByDate
       @ filteredNotes lc (filter (\<lambda>n. \<not> isFavorite n) noteList) q sel ByDate"
    unfolding filteredNotes_def sort_by_favorite [of lc "filter ?P noteList"] comm1 comm2 ..
  have sorted: "sorted_wrt (\<lambda>a b. updatedAt b \<le> updatedAt a) (filteredNotes lc noteList q sel ByDate)"
    by (simp add: filteredNotes_def sorted_sort_by_date)
  have stable: "filter (\<lambda>n. updatedAt n = t) (filteredNotes lc noteList q sel ByDate)
     = filter (\<lambda>n. matchesSearch n q \<and> matchesTag n sel \<and> updatedAt n = t) noteList"
    by (simp add: filteredNotes_def stable_sort_by_date)
  have perm: "mset (filteredNotes lc noteList q sel ByFavorite)
     = mset (filter (\<lambda>n. matchesSearch n q \<and> matchesTag n sel) noteList)"
    by (simp add: filteredNotes_def mset_sort_cmp)
  from split sorted stable perm show ?thesis by (intro conjI)
qed

section \<open>Searching and filtering\<close>

lemma startsWith_iff: "startsWith s q \<longleftrightarrow> (\<exists>post. s = q @ post)"
  by (induction s q rule: startsWith.induct) auto

lemma includes_str_iff: "includes_str s q \<longleftrightarrow> (\<exists>pre post. s = pre @ q @ post)"
proof (induction s)
  case Nil
  show ?case by auto
next
  case (Cons c cs)
  have "(\<exists>pre post. c # cs = pre @ q @ post)
        \<longleftrightarrow> (\<exists>post. c # cs = q @ post) \<or> (\<exists>pre post. cs = pre @ q @ post)"
  proof
    assume "\<exists>pre post. c # cs = pre @ q @ post"
    then obtain pre post where e: "c # cs = pre @ q @ post" by blast
    show "(\<exists>post. c # cs = q @ post) \<or> (\<exists>pre post. cs = pre @ q @ post)"
    proof (cases pre)
      case Nil
      with e show ?thesis by auto
    next
      case (Cons p ps)
      with e have "cs = ps @ q @ post" by simp
      then show ?thesis by blast
    qed
  next
    assume "(\<exists>post. c # cs = q @ post) \<or> (\<exists>pre post. cs = pre @ q @ post)"
    then show "\<exists>pre post. c # cs = pre @ q @ post"
    proof
      assume "\<exists>post. c # cs = q @ post"
      then obtain post where "c # cs = [] @ q @ post" by auto
      then show ?thesis by blast
    next
      assume "\<exists>pre post. cs = pre @ q @ post"
      then obtain pre post where "c # cs = (c # pre) @ q @ post" by auto
      then show ?thesis by blast
    qed
  qed
  with Cons show ?case by (simp add: startsWith_iff)
qed

lemma includes_lower_iff:
  "includes_str (toLowerCase text) (toLowerCase query) \<longleftrightarrow> spec_ci_substring query text"
  by (simp add: includes_str_iff spec_ci_substring_def)

lemma matchesSearch_empty: "matchesSearch note []"
  by (cases "toLowerCase (title note)") (simp_all add: matchesSearch_def toLowerCase_def)

lemma set_filteredNotes:
  "set (filteredNotes lc noteList q sel sortBy)
   = {note \<in> set noteList. matchesSearch note q \<and> matchesTag note sel}"
  by (simp add: filteredNotes_def set_sort_cmp)

lemma example_matches:
  "\<not> matchesSearch noteShopping ''bud''" "matchesSearch noteBudget ''bud''"
  "matchesSearch noteShopping ''shop''" "\<not> matchesSearch noteBudget ''shop''"
  by code_simp+

lemma example_tags:
  "\<not> matchesTag noteShopping (Some ''work'')" "matchesTag noteBudget (Some ''work'')"
  "matchesTag noteShopping (Some ''home'')" "matchesTag noteBudget (Some ''home'')"
  by (simp_all add: matchesTag_def noteShopping_def noteBudget_def)

lemma example_not_in_text:
  "\<not> includes_str (toLowerCase (title noteShopping)) (toLowerCase ''home'')"
  "\<not> includes_str (toLowerCase (content noteShopping)) (toLowerCase ''home'')"
  "\<not> includes_str (toLowerCase (title noteBudget)) (toLowerCase ''home'')"
  "\<not> includes_str (toLowerCase (content noteBudget)) (toLowerCase ''home'')"
  "includes_str (toLowerCase ''home'') (toLowerCase ''home'')"
  by code_simp+

text \<open>
  C7, as the claim states it, fails for the search of the store: \<open>searchNotes\<close>
  also returns a note one of whose tags contains the query. The query "home"
  is in no title and no content of the two notes, and \<open>searchNotes\<close> returns both,
  where the list view shows none.
\<close>

theorem searchNotes_matches_tags:
  "st_notes exampleState = [noteBudget, noteShopping]
   \<and> \<not> spec_ci_substring ''home'' (title noteShopping)
   \<and> \<not> spec_ci_substring ''home'' (content noteShopping)
   \<and> \<not> spec_ci_substring ''home'' (title noteBudget)
   \<and> \<not> spec_ci_substring ''home'' (content noteBudget)
   \<and> searchNotes exampleState ''home'' = [noteBudget, noteShopping]
   \<and> filteredNotes constantCollation (st_notes exampleState) ''home'' None ByDate = []"
proof -
  have s: "st_notes exampleState = [noteBudget, noteShopping]"
    by (simp add: exampleState_def)
  have t: "tags noteBudget = [''work'', ''home'']" "tags noteShopping = [''home'']"
    by (simp_all add: noteBudget_def noteShopping_def)
  have w: "\<not> includes_str (toLowerCase ''work'') (toLowerCase ''home'')"
    by code_simp
  have r: "searchNotes exampleState ''home'' = [noteBudget, noteShopping]"
    unfolding searchNotes_def s using example_not_in_text w by (simp add: t)
  have l: "filteredNotes constantCollation (st_notes exampleState) ''home'' None ByDate = []"
    unfolding filteredNotes_def s using example_not_in_text
    by (simp add: matchesSearch_def sort_cmp_def)
  from s r l example_not_in_text(1-4) show ?thesis
    by (simp add: includes_lower_iff)
qed

text \<open>
  C7, amended. In the list view a note passes the search exactly when the query is,
  without regard to case, a substring of its title or of its content; it passes the
  tag filter exactly when no tag is selected or its tags hold the selected one; the
  view with both is the intersection of the views with each. \<open>searchNotes\<close> of
  the store returns a note of the collection exactly when the query is such a
  substring of its title, of its content or of one of its tags. Of the notes
  "Shopping" and "Budget", the view shows the second alone for the search
  "bud", the second alone for the tag "work", and the first alone for the search
  "shop" with the tag "home".
\<close>

theorem search_and_tag_filter:
  "(note \<in> set (filteredNotes lc noteList q None sortBy)
      \<longleftrightarrow> note \<in> set noteList
          \<and> (spec_ci_substring q (title note) \<or> spec_ci_substring q (content note)))
   \<and> (note \<in> set (filteredNotes lc noteList [] sel sortBy)
      \<longleftrightarrow> note \<in> set noteList \<and> (sel = None \<or> sel = Some [] \<or> the sel \<in> set (tags note)))
   \<and> set (filteredNotes lc noteList q sel sortBy)
      = set (filteredNotes lc noteList q None sortBy) \<inter> set (filteredNotes lc noteList [] sel sortBy)
   \<and> (note \<in> set (searchNotes state q)
      \<longleftrightarrow> note \<in> set (st_notes state)
          \<and> (spec_ci_substring q (title note) \<or> spec_ci_substring q (content note)
              \<or> (\<exists>tag \<in> set (tags note). spec_ci_substring q tag)))
   \<and> filteredNotes lc [noteShopping, noteBudget] ''bud'' None sortBy = [noteBudget]
   \<and> filteredNotes lc [noteShopping, noteBudget] [] (Some ''work'') sortBy = [noteBudget]
   \<and> filteredNotes lc [noteShopping, noteBudget] ''shop'' (Some ''home'') sortBy = [noteShopping]"
proof -
  have search: "note \<in> set (filteredNotes lc noteList q None sortBy)
      \<longleftrightarrow> note \<in> set noteList
          \<and> (spec_ci_substring q (title note) \<or> spec_ci_substring q (content note))"
    by (simp add: set_filteredNotes matchesSearch_def matchesTag_def includes_lower_iff)
  have tag: "note \<in> set (filteredNotes lc noteList [] sel sortBy)
      \<longleftrightarrow> note \<in> set noteList \<and> (sel = None \<or> sel = Some [] \<or> the sel \<in> set (tags note))"
    by (cases sel) (auto simp: set_filteredNotes matchesSearch_empty matchesTag_def)
  have both: "set (filteredNotes lc noteList q sel sortBy)
      = set (filteredNotes lc noteList q None sortBy) \<inter> set (filteredNotes lc noteList [] sel sortBy)"
    by (auto simp: set_filteredNotes matchesSearch_empty matchesTag_def)
  have store: "note \<in> set (searchNotes state q)
      \<longleftrightarrow> note \<in> set (st_notes state)
          \<and> (spec_ci_substring q (title note) \<or> spec_ci_substring q (content note)
              \<or> (\<exists>tag \<in> set (tags note). spec_ci_substring q tag))"
    by (simp add: searchNotes_def includes_lower_iff list_ex_iff)
  have e1: "filteredNotes lc [noteShopping, noteBudget] ''bud'' None sortBy = [noteBudget]"
    using example_matches by (simp add: filteredNotes_def matchesTag_def sort_cmp_def)
  have e2: "filteredNotes lc [noteShopping, noteBudget] [] (Some ''work'') sortBy = [noteBudget]"
    using example_tags by (simp add: filteredNotes_def matchesSearch_empty sort_cmp_def)
  have e3: "filteredNotes lc [noteShopping, noteBudget] ''shop'' (Some ''home'') sortBy = [noteShopping]"
    using example_matches example_tags by (simp add: filteredNotes_def sort_cmp_def)
  from search tag both store e1 e2 e3 show ?thesis by (intro conjI)
qed

section \<open>Deleting a folder\<close>

text \<open>
  C9, as the claim states it, fails in the local collection: \<open>deleteFolder\<close>
  removes the folder from the local folders and does not touch the local notes, so
  the note that referred to the folder "f1" still does after the folder is deleted.
\<close>

theorem deleteFolder_keeps_local_reference:
  "fst (deleteFolder ''f1'' (requestOk ()) exampleState) = Inr ()
   \<and> st_folders exampleState = [folderHome] \<and> folder_id folderHome = ''f1''
   \<and> st_notes exampleState = [noteBudget, noteShopping] \<and> folderId noteShopping = Some ''f1''
   \<and> st_folders (snd (deleteFolder ''f1'' (requestOk ()) exampleState)) = []
   \<and> st_notes (snd (deleteFolder ''f1'' (requestOk ()) exampleState)) = [noteBudget, noteShopping]
   \<and> folderId noteShopping \<noteq> None"
  by (simp add: deleteFolder_def requestOk_def exampleState_def folderHome_def noteShopping_def)

lemma delete_folder_row_notes:
  "list_ex (\<lambda>f. frow_id f = ident) (db_folders db) \<Longrightarrow>
   db_notes (delete_folder_row ident now db)
   = map (\<lambda>r. if row_folder_id r = Some ident
               then r\<lparr>row_folder_id := None, row_updated_at := now\<rparr> else r) (db_notes db)"
  by (simp add: delete_folder_row_def)

text \<open>
  C9, amended. After a successful \<open>deleteFolder\<close> the local notes are the notes
  from before, each with the folder reference it had, and the folder is gone from
  the local folders. In the remote store, deleting the row of an existing folder
  keeps every row of \<open>notes\<close>, in place and with its id, sets the folder
  reference of the rows that referred to the folder to null and leaves the other
  rows as they were; a later successful \<open>fetchNotes\<close> of these rows gives a local
  collection with no reference to the folder.
\<close>

theorem deleteFolder_detaches_in_remote_store:
  "(deleteFolder ident deleteResp state = (Inr (), state') \<longrightarrow>
      st_notes state' = st_notes state
      \<and> st_folders state' = filter (\<lambda>f. folder_id f \<noteq> ident) (st_folders state))
   \<and> (list_ex (\<lambda>f. frow_id f = ident) (db_folders db) \<longrightarrow>
        map row_id (db_notes (delete_folder_row ident now db)) = map row_id (db_notes db)
        \<and> (k < length (db_notes db) \<and> row_folder_id (db_notes db ! k) = Some ident \<longrightarrow>
             row_folder_id (db_notes (delete_folder_row ident now db) ! k) = None)
        \<and> (k < length (db_notes db) \<and> row_folder_id (db_notes db ! k) \<noteq> Some ident \<longrightarrow>
             db_notes (delete_folder_row ident now db) ! k = db_notes db ! k)
        \<and> (resp_error selectResp = None
             \<and> set (resp_data selectResp) = set (db_notes (delete_folder_row ident now db)) \<longrightarrow>
             list_all (\<lambda>n. folderId n \<noteq> Some ident) (st_notes (fetchNotes selectResp later state'))))"
proof -
  have loc: "deleteFolder ident deleteResp state = (Inr (), state') \<longrightarrow>
      st_notes state' = st_notes state
      \<and> st_folders state' = filter (\<lambda>f. folder_id f \<noteq> ident) (st_folders state)"
    by (auto simp: deleteFolder_def split: option.splits)
  have remote: "map row_id (db_notes (delete_folder_row ident now db)) = map row_id (db_notes db)
        \<and> (k < length (db_notes db) \<and> row_folder_id (db_notes db ! k) = Some ident \<longrightarrow>
             row_folder_id (db_notes (delete_folder_row ident now db) ! k) = None)
        \<and> (k < length (db_notes db) \<and> row_folder_id (db_notes db ! k) \<noteq> Some ident \<longrightarrow>
             db_notes (delete_folder_row ident now db) ! k = db_notes db ! k)
        \<and> (resp_error selectResp = None
             \<and> set (resp_data selectResp) = set (db_notes (delete_folder_row ident now db)) \<longrightarrow>
             list_all (\<lambda>n. folderId n \<noteq> Some ident) (st_notes (fetchNotes selectResp later state')))"
    if ex: "list_ex (\<lambda>f. frow_id f = ident) (db_folders db)"
  proof -
    note rows = delete_folder_row_notes [OF ex, of now]
    have ids: "map row_id (db_notes (delete_folder_row ident now db)) = map row_id (db_notes db)"
      unfolding rows by (induction "db_notes db") auto
    have none: "\<forall>r \<in> set (db_notes (delete_folder_row ident now db)). row_folder_id r \<noteq> Some ident"
      unfolding rows by auto
    have fetched: "list_all (\<lambda>n. folderId n \<noteq> Some ident) (st_notes (fetchNotes selectResp later state'))"
      if "resp_error selectResp = None"
        and "set (resp_data selectResp) = set (db_notes (delete_folder_row ident now db))"
      using that none by (auto simp: fetchNotes_def Let_def list_all_iff noteOfRow_def)
    from ids fetched show ?thesis unfolding rows by auto
  qed
  from loc remote show ?thesis by blast
qed

theorem deleteFolder_detaches_in_remote_store_witness:
  "deleteFolder ''f1'' (requestOk ()) exampleState
     = (Inr (), snd (deleteFolder ''f1'' (requestOk ()) exampleState))
   \<and> list_ex (\<lambda>f. frow_id f = ''f1'') (db_folders exampleDatabase)
   \<and> (1::nat) < length (db_notes exampleDatabase)
   \<and> row_folder_id (db_notes exampleDatabase ! 1) = Some ''f1''
   \<and> row_folder_id (db_notes exampleDatabase ! 0) \<noteq> Some ''f1''
   \<and> st_notes (snd (deleteFolder ''f1'' (requestOk ()) exampleState)) = [noteBudget, noteShopping]
   \<and> st_folders (snd (deleteFolder ''f1'' (requestOk ()) exampleState)) = []
   \<and> map row_id (db_notes (delete_folder_row ''f1'' 600 exampleDatabase)) = [''n2'', ''n1'']
   \<and> row_folder_id (db_notes (delete_folder_row ''f1'' 600 exampleDatabase) ! 1) = None
   \<and> db_notes (delete_folder_row ''f1'' 600 exampleDatabase) ! 0 = db_notes exampleDatabase ! 0
   \<and> list_all (\<lambda>n. folderId n \<noteq> Some ''f1'')
        (st_notes (fetchNotes (requestOk (db_notes (delete_folder_row ''f1'' 600 exampleDatabase))) 700
                     (snd (deleteFolder ''f1'' (requestOk ()) exampleState))))"
proof -
  let ?local = "deleteFolder ''f1'' (requestOk ()) exampleState"
  let ?rows = "db_notes (delete_folder_row ''f1'' 600 exampleDatabase)"
  have ok: "?local = (Inr (), snd ?local)"
    by (simp add: deleteFolder_def requestOk_def)
  have ex: "list_ex (\<lambda>f. frow_id f = ''f1'') (db_folders exampleDatabase)"
    by (simp add: exampleDatabase_def)
  have k1: "(1::nat) < length (db_notes exampleDatabase)
            \<and> row_folder_id (db_notes exampleDatabase ! 1) = Some ''f1''"
    and k0: "(0::nat) < length (db_notes exampleDatabase)
            \<and> row_folder_id (db_notes exampleDatabase ! 0) \<noteq> Some ''f1''"
    by (simp_all add: exampleDatabase_def)
  have sel: "resp_error (requestOk ?rows) = None \<and> set (resp_data (requestOk ?rows)) = set ?rows"
    by (simp add: requestOk_def)
  note at1 = deleteFolder_detaches_in_remote_store
      [where ident = "''f1''" and deleteResp = "requestOk ()" and state = exampleState
         and state' = "snd ?local" and db = exampleDatabase and now = 600 and k = 1
         and selectResp = "requestOk ?rows" and later = 700]
  note at0 = deleteFolder_detaches_in_remote_store
      [where ident = "''f1''" and deleteResp = "requestOk ()" and state = exampleState
         and state' = "snd ?local" and db = exampleDatabase and now = 600 and k = 0
         and selectResp = "requestOk ?rows" and later = 700]
  note loc = at1 [THEN conjunct1, THEN mp, OF ok]
  note rem1 = at1 [THEN conjunct2, THEN mp, OF ex]
  note rem0 = at0 [THEN conjunct2, THEN mp, OF ex]
  note ids = rem1 [THEN conjunct1]
  note nulled = rem1 [THEN conjunct2, THEN conjunct1, THEN mp, OF k1]
  note same = rem0 [THEN conjunct2, THEN conjunct2, THEN conjunct1, THEN mp, OF k0]
  note fetched = rem1 [THEN conjunct2, THEN conjunct2, THEN conjunct2, THEN mp, OF sel]
  have n: "st_notes (snd ?local) = [noteBudget, noteShopping]" and f: "st_folders (snd ?local) = []"
    using loc by (simp_all add: exampleState_def folderHome_def)
  have i: "map row_id ?rows = [''n2'', ''n1'']"
    using ids by (simp add: exampleDatabase_def)
  from ok ex k1 k0 n f i nulled same fetched show ?thesis by (intro conjI) simp_all
qed

section \<open>Saving from the editor\<close>



lemma handleSave_while_saving: "r_saving r \<Longrightarrow> handleSave r s = s"
  by (simp add: handleSave_def)

lemma handleSave_parts:
  "editor (handleSave r s) = editor s" "timer (handleSave r s) = timer s"
  "store (handleSave r s) = store s"
  by (simp_all add: handleSave_def)

lemma autoSaveTimeout_parts:
  "editor (autoSaveTimeout r s) = editor s" "timer (autoSaveTimeout r s) = timer s"
  by (simp_all add: autoSaveTimeout_def handleSave_parts)

lemma handleSave_settled_parts:
  "editor (handleSave_settled userResp insertResp updateResp now s) = editor s"
  "timer (handleSave_settled userResp insertResp updateResp now s) = timer s"
  by (simp_all add: handleSave_settled_def Let_def split: list.splits prod.splits)

lemma loadEffect_parts: "editor (loadEffect s) = editor s" "timer (loadEffect s) = timer s"
  by (simp_all add: loadEffect_def split: option.splits)

lemma markEffect_parts: "editor (markEffect s) = editor s" "timer (markEffect s) = timer s"
  by (simp_all add: markEffect_def Let_def split: option.splits)

lemma step_ClickSave: "step ClickSave s = handleSave (renderOf (editor s) (store s)) s"
  by (simp add: step_def)

lemma step_TimerExpires_None: "timer s = None \<Longrightarrow> step TimerExpires s = s"
  by (simp add: step_def)


lemma step_Render: "step Render s = commitRender s"
  by (simp add: step_def)

lemma step_keeps_render:
  assumes "e \<noteq> Render"
  shows "editor (step e s) = editor s"
proof (cases e)
  case TimerExpires
  then show ?thesis
    by (cases "timer s") (auto simp: step_def autoSaveTimeout_parts)
qed (use assms in \<open>simp_all add: step_def handleSave_parts handleSave_settled_parts
       loadEffect_parts markEffect_parts\<close>)

lemma step_keeps_timer:
  assumes "e \<noteq> Render" and "e \<noteq> TimerExpires"
  shows "timer (step e s) = timer s"
  using assms
  by (cases e) (simp_all add: step_def handleSave_parts handleSave_settled_parts
       loadEffect_parts markEffect_parts)

lemma step_TimerExpires_clears: "timer (step TimerExpires s) = None"
  by (cases "timer s") (auto simp: step_def autoSaveTimeout_parts)

lemma timerInvariant_initial: "timerInvariant (initialSystem state ident)"
  by (simp add: timerInvariant_def initialSystem_def)

lemma timerInvariant_commitRender:
  assumes "timerInvariant s"
  shows "timerInvariant (commitRender s)"
proof (cases "autoSaveDeps (editor s) = autoSaveDeps (latest s)")
  case True
  then have "commitRender s = s\<lparr>editor := latest s\<rparr>"
    by (simp add: commitRender_def autoSaveEffect_def)
  with True assms show ?thesis
    by (auto simp: timerInvariant_def autoSaveDeps_def)
next
  case False
  then show ?thesis
    by (simp add: commitRender_def autoSaveEffect_def timerInvariant_def renderOf_def)
qed

lemma timerInvariant_step:
  assumes "timerInvariant s"
  shows "timerInvariant (step e s)"
proof (cases "e = Render")
  case True
  with assms show ?thesis by (simp add: step_Render timerInvariant_commitRender)
next
  case False
  note not_render = this
  show ?thesis
  proof (cases "e = TimerExpires")
    case True
    then show ?thesis by (simp add: timerInvariant_def step_TimerExpires_clears)
  next
    case False
    with not_render assms show ?thesis
      by (simp add: timerInvariant_def step_keeps_render step_keeps_timer)
  qed
qed

lemma timerInvariant_run: "timerInvariant s \<Longrightarrow> timerInvariant (run events s)"
  by (induction events arbitrary: s) (simp_all add: timerInvariant_step)

lemma timerInvariant_reachable: "timerInvariant (run events (initialSystem state ident))"
  by (simp add: timerInvariant_run timerInvariant_initial)

text \<open>
  When the write of a save fails, the store and the mark of unsaved changes stay as
  they are, and the save is over.
\<close>

lemma failed_write_keeps_changes:
  assumes "inFlight s = [UpdateNoteRequest ident updates]" and "resp_error updateResp = Some msg"
  shows "store (step (WriteSettles userResp insertResp updateResp now) s) = store s"
    and "hasUnsavedChanges (latest (step (WriteSettles userResp insertResp updateResp now) s))
         = hasUnsavedChanges (latest s)"
    and "\<not> saving (latest (step (WriteSettles userResp insertResp updateResp now) s))"
    and "inFlight (step (WriteSettles userResp insertResp updateResp now) s) = []"
  using assms
  by (simp_all add: step_def handleSave_settled_def runRequest_def updateNote_def)

text \<open>
  Once the render with \<open>saving\<close> is committed, pressing Save issues no write, and
  no timeout is pending.
\<close>

lemma save_guard_after_render:
  assumes "saving (editor s)"
  shows "step ClickSave s = s"
    and "s = run events (initialSystem state ident) \<Longrightarrow> step TimerExpires s = s"
proof -
  from assms have "r_saving (renderOf (editor s) (store s))" by (simp add: renderOf_def)
  then show "step ClickSave s = s" by (simp add: step_ClickSave handleSave_while_saving)
next
  assume "s = run events (initialSystem state ident)"
  then have "timerInvariant s" by (simp add: timerInvariant_reachable)
  with assms have "timer s = None"
    by (cases "timer s") (auto simp: timerInvariant_def)
  then show "step TimerExpires s = s" by (rule step_TimerExpires_None)
qed

section \<open>Runs of the editor\<close>

lemma trim_examples: "trim ''x'' = ''x''" "trim '' '' = []" "trim [] = []"
  by (simp_all add: trim_def isWhiteSpace_def)

lemmas editor_defs = step_def commitRender_def autoSaveEffect_def autoSaveDeps_def markEffect_def
  loadEffect_def currentNote_def initialSystem_def initialEditor_def handleSave_def
  autoSaveTimeout_def renderOf_def truthy_def trim_examples Let_def

text \<open>
  C8 on the code: a new note has the title "x" and unsaved changes, and its timeout
  is pending. The timeout expires: its callback runs \<open>handleSave\<close>, which queues
  \<open>setSaving(true)\<close> and issues the write. Before React has rendered that update
  the user presses Save: the button runs the \<open>handleSave\<close> of the committed
  render, whose constant \<open>saving\<close> is false, and a second write is in flight with
  the first.
\<close>

theorem save_reentered_before_render:
  "map_option fst (timer (run [SetTitle ''x'', Render, RunMarkEffect, Render]
                            (initialSystem exampleState None))) = Some 30000
   \<and> length (inFlight (run autosaveEvents (initialSystem exampleState None))) = 1
   \<and> saving (latest (run autosaveEvents (initialSystem exampleState None)))
   \<and> \<not> saving (editor (run autosaveEvents (initialSystem exampleState None)))
   \<and> length (inFlight (step ClickSave (run autosaveEvents (initialSystem exampleState None)))) = 2"
  by (simp add: autosaveEvents_def editor_defs)




lemma autosave_delay_constant:
  "timer (run events (initialSystem state ident)) = Some (delay, r) \<Longrightarrow> delay = 30000"
  using timerInvariant_reachable [of events state ident] by (simp add: timerInvariant_def)

text \<open>
  C5 on the code: a profile saved with an auto-save interval of 60 seconds, and an
  editor with unsaved changes whose timeout is set to 30000 milliseconds. The
  editor reads no profile; the delay is the constant of the effect.
\<close>

theorem autosave_delay_ignores_profile:
  "auto_save_interval (updateProfile formSixty defaultProfile) = 60
   \<and> hasUnsavedChanges (editor (run [SetTitle ''x'', Render, RunMarkEffect, Render]
                                    (initialSystem exampleState None)))
   \<and> \<not> saving (editor (run [SetTitle ''x'', Render, RunMarkEffect, Render]
                           (initialSystem exampleState None)))
   \<and> map_option fst (timer (run [SetTitle ''x'', Render, RunMarkEffect, Render]
                               (initialSystem exampleState None)))
      = Some 30000"
  by (simp add: editor_defs updateProfile_def formSixty_def defaultProfile_def)

end
